theory Spec2Isabelle
  imports Complex_Main "HOL-Library.Monad_Syntax"
begin

section \<open>The JavaScript runtime and the D1 binding used by the ingestion path\<close>

text \<open>
  The webhook ingestion path of the repository is \<^verbatim>\<open>src/routes/webhook.ts\<close> (the POST
  handler and its helpers) on top of \<^verbatim>\<open>src/lib/database.ts\<close> (class
  \<^verbatim>\<open>DatabaseService\<close>) and the SQL schema. Asynchronous calls are awaited one after
  the other, so a method is a function from the database to a result and the database it
  leaves behind; a thrown exception is the result \<open>Inl e\<close>, and what the method wrote
  before throwing stays written (every D1 statement commits on its own).
\<close>

datatype error =
    SyntaxError
  | RangeError
  | D1_TYPE_ERROR
  | D1_ERROR string

text \<open>
  A JavaScript \<^verbatim>\<open>number\<close> that came out of \<^verbatim>\<open>JSON.parse\<close> is finite or an
  infinity, never \<^verbatim>\<open>NaN\<close>; it is modelled by the real it denotes, \<open>0\<close> standing
  for both zeros. Such a number is falsy exactly when it is \<open>0\<close>.
\<close>

type_synonym number = real

subsection \<open>\<^verbatim>\<open>parseInt\<close> without a radix\<close>

text \<open>
  Strings are byte strings, a character outside ASCII being its UTF-8 bytes.
  \<^verbatim>\<open>parseInt(s)\<close>: leading white space is skipped (the white space and line terminator
  code points of ECMAScript: TAB, LF, VT, FF, CR, SP, U+00A0, U+1680, U+2000 to U+200A,
  U+2028, U+2029, U+202F, U+205F, U+3000, U+FEFF), a sign is read, \<^verbatim>\<open>0x\<close> selects
  radix 16, the longest prefix of digits is the value; no digit at all gives
  \<^verbatim>\<open>NaN\<close>, written \<open>None\<close>.
\<close>

definition isWhiteSpace :: "char \<Rightarrow> bool" where
  "isWhiteSpace c \<longleftrightarrow>
     c \<in> set [CHR '' '', CHR 0x09, CHR 0x0A, CHR 0x0B, CHR 0x0C, CHR 0x0D]"

definition isWhiteSpace3 :: "char \<Rightarrow> char \<Rightarrow> char \<Rightarrow> bool" where
  "isWhiteSpace3 a b c \<longleftrightarrow>
     (let x = (of_char a :: int); y = (of_char b :: int); z = (of_char c :: int) in
      (x = 0xE1 \<and> y = 0x9A \<and> z = 0x80)
      \<or> (x = 0xE2 \<and> y = 0x80 \<and> (0x80 \<le> z \<and> z \<le> 0x8A \<or> z = 0xA8 \<or> z = 0xA9 \<or> z = 0xAF))
      \<or> (x = 0xE2 \<and> y = 0x81 \<and> z = 0x9F)
      \<or> (x = 0xE3 \<and> y = 0x80 \<and> z = 0x80)
      \<or> (x = 0xEF \<and> y = 0xBB \<and> z = 0xBF))"

fun trimStart :: "string \<Rightarrow> string" where
  "trimStart (a # b # c # s) =
     (if isWhiteSpace a then trimStart (b # c # s)
      else if a = CHR 0xC2 \<and> b = CHR 0xA0 then trimStart (c # s)
      else if isWhiteSpace3 a b c then trimStart s
      else a # b # c # s)"
| "trimStart [a, b] =
     (if isWhiteSpace a then trimStart [b]
      else if a = CHR 0xC2 \<and> b = CHR 0xA0 then []
      else [a, b])"
| "trimStart [a] = (if isWhiteSpace a then [] else [a])"
| "trimStart [] = []"

definition digitValue :: "char \<Rightarrow> int option" where
  "digitValue c =
     (let n = (of_char c :: int) in
      if 48 \<le> n \<and> n \<le> 57 then Some (n - 48)
      else if 97 \<le> n \<and> n \<le> 122 then Some (n - 87)
      else if 65 \<le> n \<and> n \<le> 90 then Some (n - 55)
      else None)"

definition isRadixDigit :: "int \<Rightarrow> char \<Rightarrow> bool" where
  "isRadixDigit R c = (case digitValue c of Some d \<Rightarrow> d < R | None \<Rightarrow> False)"

definition mathInt :: "int \<Rightarrow> string \<Rightarrow> int" where
  "mathInt R Z =
     foldl (\<lambda>a c. a * R + (case digitValue c of Some d \<Rightarrow> d | None \<Rightarrow> 0)) 0 Z"

definition parseInt :: "string \<Rightarrow> int option" where
  "parseInt inputString =
     (let S = trimStart inputString;
          sign = (if take 1 S = ''-'' then - 1 else (1 :: int));
          S = (if take 1 S = ''+'' \<or> take 1 S = ''-'' then drop 1 S else S);
          hex = (take 2 S = ''0x'' \<or> take 2 S = ''0X'');
          R = (if hex then 16 else 10);
          S = (if hex then drop 2 S else S);
          Z = takeWhile (isRadixDigit R) S
      in if Z = [] then None else Some (sign * mathInt R Z))"

subsection \<open>\<^verbatim>\<open>new Date(ms).toISOString()\<close>\<close>

text \<open>
  A time value is a number of milliseconds since the epoch, or \<^verbatim>\<open>NaN\<close> (\<open>None\<close>).
  The constructor clips: beyond \<open>8.64e15\<close> milliseconds the date is invalid. The
  multiplication by 1000 and the comparison are exact on the integers below \<open>2^53\<close>,
  and rounding above them never brings a product back into the range, so integers model
  the doubles here.
\<close>

definition TimeClip :: "int option \<Rightarrow> int option" where
  "TimeClip t =
     (case t of
        None \<Rightarrow> None
      | Some ms \<Rightarrow> if \<bar>ms\<bar> > 8640000000000000 then None else Some ms)"

fun pad :: "nat \<Rightarrow> int \<Rightarrow> string" where
  "pad 0 n = []"
| "pad (Suc w) n = pad w (n div 10) @ [''0123456789'' ! nat (n mod 10)]"

text \<open>The proleptic Gregorian date (year, month, day) of a day number counted from 1970-01-01.\<close>

definition civil :: "int \<Rightarrow> int \<times> int \<times> int" where
  "civil days =
     (let z = days + 719468;
          era = z div 146097;
          doe = z - era * 146097;
          yoe = (doe - doe div 1460 + doe div 36524 - doe div 146096) div 365;
          doy = doe - (365 * yoe + yoe div 4 - yoe div 100);
          mp = (5 * doy + 2) div 153;
          d = doy - (153 * mp + 2) div 5 + 1;
          m = (if mp < 10 then mp + 3 else mp - 9);
          y = yoe + era * 400 + (if m \<le> 2 then 1 else 0)
      in (y, m, d))"

definition isoFormat :: "int \<Rightarrow> string" where
  "isoFormat ms =
     (let (y, m, d) = civil (ms div 86400000);
          t = ms mod 86400000;
          year = (if 0 \<le> y \<and> y \<le> 9999 then pad 4 y
                  else (if y < 0 then ''-'' else ''+'') @ pad 6 \<bar>y\<bar>)
      in year @ ''-'' @ pad 2 m @ ''-'' @ pad 2 d @ ''T'' @
         pad 2 (t div 3600000) @ '':'' @ pad 2 (t div 60000 mod 60) @ '':'' @
         pad 2 (t div 1000 mod 60) @ ''.'' @ pad 3 (t mod 1000) @ ''Z'')"

definition toISOString :: "int option \<Rightarrow> error + string" where
  "toISOString t = (case t of None \<Rightarrow> Inl RangeError | Some ms \<Rightarrow> Inr (isoFormat ms))"

text \<open>
  \<^verbatim>\<open>new Date(parseInt(ts) * 1000).toISOString()\<close>, the conversion both write methods
  apply to the event's timestamp before they touch the messages table.
\<close>

definition epochToISO :: "string \<Rightarrow> error + string" where
  "epochToISO ts = toISOString (TimeClip (map_option (\<lambda>n. n * 1000) (parseInt ts)))"

subsection \<open>\<^verbatim>\<open>JSON.stringify\<close>\<close>

text \<open>
  The values \<^verbatim>\<open>JSON.parse\<close> produces. An object keeps its properties in the order
  of the document.
\<close>

datatype json =
    JNull
  | JBool bool
  | JNumber number
  | JString string
  | JArray "json list"
  | JObject "(string \<times> json) list"

definition hexDigit :: "int \<Rightarrow> char" where
  "hexDigit d = ''0123456789abcdef'' ! nat d"

definition QuoteChar :: "char \<Rightarrow> string" where
  "QuoteChar c =
     (let n = (of_char c :: int) in
      if c = CHR 0x22 then [CHR 0x5C, CHR 0x22]
      else if c = CHR 0x5C then [CHR 0x5C, CHR 0x5C]
      else if n = 8 then [CHR 0x5C, CHR ''b'']
      else if n = 9 then [CHR 0x5C, CHR ''t'']
      else if n = 10 then [CHR 0x5C, CHR ''n'']
      else if n = 12 then [CHR 0x5C, CHR ''f'']
      else if n = 13 then [CHR 0x5C, CHR ''r'']
      else if n < 32 then [CHR 0x5C, CHR ''u'', CHR ''0'', CHR ''0'', hexDigit (n div 16), hexDigit (n mod 16)]
      else [c])"

definition QuoteJSONString :: "string \<Rightarrow> string" where
  "QuoteJSONString s = [CHR 0x22] @ concat (map QuoteChar s) @ [CHR 0x22]"

fun commas :: "string list \<Rightarrow> string" where
  "commas [] = []"
| "commas [x] = x"
| "commas (x # y # ys) = x @ '','' @ commas (y # ys)"

text \<open>
  \<^verbatim>\<open>JSON.stringify(v)\<close> with no replacer and no indentation. How a number is
  written (\<^verbatim>\<open>Number.prototype.toString\<close>: the shortest decimal that reads back as the
  same double) is not modelled: the function \<open>num\<close> stands for it.
\<close>

fun JSON_stringify :: "(number \<Rightarrow> string) \<Rightarrow> json \<Rightarrow> string" where
  "JSON_stringify num JNull = ''null''"
| "JSON_stringify num (JBool b) = (if b then ''true'' else ''false'')"
| "JSON_stringify num (JNumber n) = num n"
| "JSON_stringify num (JString s) = QuoteJSONString s"
| "JSON_stringify num (JArray xs) = ''['' @ commas (map (JSON_stringify num) xs) @ '']''"
| "JSON_stringify num (JObject ps) =
     ''{'' @ commas (map (\<lambda>(k, v). QuoteJSONString k @ '':'' @ JSON_stringify num v) ps) @ ''}''"

text \<open>
  Reading a snapshot back. The numbers a value holds, and what is asked of the number
  printer on a set of numbers for two values over that set to be told apart by their
  texts: it writes different numbers differently, and writes a number with at least one
  of the characters of a JSON number (\<^verbatim>\<open>Number.prototype.toString\<close> does so on the
  finite doubles, \<open>-0\<close> left aside, which it writes as \<open>0\<close>).
\<close>

fun numbers :: "json \<Rightarrow> number set" where
  "numbers JNull = {}"
| "numbers (JBool b) = {}"
| "numbers (JNumber n) = {n}"
| "numbers (JString s) = {}"
| "numbers (JArray xs) = (\<Union>x \<in> set xs. numbers x)"
| "numbers (JObject ps) = (\<Union>(k, v) \<in> set ps. numbers v)"

definition number_printer :: "(number \<Rightarrow> string) \<Rightarrow> number set \<Rightarrow> bool" where
  "number_printer num D \<longleftrightarrow>
     inj_on num D \<and> (\<forall>n \<in> D. num n \<noteq> [] \<and> set (num n) \<subseteq> set ''0123456789+-.e'')"

text \<open>A value given to \<^verbatim>\<open>.bind()\<close> for a TEXT column: D1 refuses \<^verbatim>\<open>undefined\<close>.\<close>

datatype bound = Undefined | Null | Text string

text \<open>\<^verbatim>\<open>x || null\<close> on an optional string and on an optional number.\<close>

definition or_null :: "string option \<Rightarrow> string option" where
  "or_null x = (case x of None \<Rightarrow> None | Some s \<Rightarrow> if s = [] then None else Some s)"

definition num_or_null :: "number option \<Rightarrow> number option" where
  "num_or_null x = (case x of None \<Rightarrow> None | Some n \<Rightarrow> if n = 0 then None else Some n)"

definition bound_of :: "string option \<Rightarrow> bound" where
  "bound_of x = (case x of None \<Rightarrow> Null | Some s \<Rightarrow> Text s)"

section \<open>The webhook payload (\<^verbatim>\<open>src/types/whatsapp.ts\<close>)\<close>

text \<open>
  One record per interface; an optional property is an \<open>option\<close>. Field names carry a
  prefix where two interfaces share a property name. The parts of a message that the
  code never looks into and only serialises (the shared contact cards, the referral)
  stay JSON values. A literal union the code passes on as a string is a datatype with
  its text.

  Three objects are handed whole to \<^verbatim>\<open>JSON.stringify\<close>: the message and the two
  replies of an interactive message. What is printed then is the object that
  \<^verbatim>\<open>JSON.parse\<close> built, every property it has, whether the interface names it or
  not, in the order in which \<^verbatim>\<open>JSON.stringify\<close> enumerates them (for the properties
  of a parsed document, none of them an array index: the order of the document). The
  records of these three keep that list of properties beside the typed fields.
\<close>

record Profile =
  profile_name :: string

record WebhookContact =
  profile :: Profile
  wc_wa_id :: string

record TextContent =
  body :: string

record MediaContent =
  media_id :: string
  mime_type :: string
  sha256 :: "string option"
  media_caption :: "string option"

record DocumentContent = MediaContent +
  filename :: "string option"

record LocationContent =
  loc_latitude :: number
  loc_longitude :: number
  loc_name :: "string option"
  loc_address :: "string option"

record ButtonReply =
  br_id :: string
  br_title :: string
  br_properties :: "(string \<times> json) list"

record ListReply =
  lr_id :: string
  lr_title :: string
  lr_description :: "string option"
  lr_properties :: "(string \<times> json) list"

datatype InteractiveType = Button_reply | List_reply

fun interactiveText :: "InteractiveType \<Rightarrow> string" where
  "interactiveText Button_reply = ''button_reply''"
| "interactiveText List_reply = ''list_reply''"

record InteractiveResponse =
  interactive_type :: InteractiveType
  button_reply :: "ButtonReply option"
  list_reply :: "ListReply option"

record ButtonResponse =
  btn_payload :: string
  btn_text :: string

record MessageContext =
  ctx_from :: string
  ctx_id :: string
  forwarded :: "bool option"
  frequently_forwarded :: "bool option"

text \<open>
  \<open>msg_type\<close> is the string the switch of \<^verbatim>\<open>saveIncomingMessage\<close> reads: the
  members of \<^verbatim>\<open>MessageType\<close> and whatever else the platform sends.
\<close>

record IncomingMessage =
  msg_from :: string
  msg_id :: string
  msg_timestamp :: string
  msg_type :: string
  msg_text :: "TextContent option"
  msg_image :: "MediaContent option"
  msg_video :: "MediaContent option"
  msg_audio :: "MediaContent option"
  msg_document :: "DocumentContent option"
  msg_sticker :: "MediaContent option"
  msg_location :: "LocationContent option"
  msg_contacts :: "json list option"
  msg_interactive :: "InteractiveResponse option"
  msg_button :: "ButtonResponse option"
  msg_context :: "MessageContext option"
  msg_referral :: "json option"
  msg_properties :: "(string \<times> json) list"

record ErrorData =
  details :: string

record WebhookError =
  err_code :: number
  err_title :: string
  err_message :: string
  error_data :: "ErrorData option"

datatype StatusValue = sent | delivered | read | failed

fun statusText :: "StatusValue \<Rightarrow> string" where
  "statusText sent = ''sent''"
| "statusText delivered = ''delivered''"
| "statusText read = ''read''"
| "statusText failed = ''failed''"

datatype OriginType = business_initiated | user_initiated | referral_conversion

fun originText :: "OriginType \<Rightarrow> string" where
  "originText business_initiated = ''business_initiated''"
| "originText user_initiated = ''user_initiated''"
| "originText referral_conversion = ''referral_conversion''"

record Origin =
  origin_type :: OriginType

record Conversation =
  conv_id :: string
  origin :: Origin
  expiration_timestamp :: "string option"

record Pricing =
  billable :: bool
  pricing_model :: string
  category :: OriginType

record MessageStatus =
  st_id :: string
  st_status :: StatusValue
  st_timestamp :: string
  recipient_id :: string
  st_conversation :: "Conversation option"
  st_pricing :: "Pricing option"
  st_errors :: "WebhookError list option"

record Metadata =
  display_phone_number :: string
  phone_number_id :: string

record WebhookValue =
  messaging_product :: string
  metadata :: Metadata
  wv_contacts :: "WebhookContact list option"
  wv_messages :: "IncomingMessage list option"
  wv_statuses :: "MessageStatus list option"
  wv_errors :: "WebhookError list option"

record WebhookChange =
  change_value :: WebhookValue
  field :: string

record WebhookEntry =
  entry_id :: string
  changes :: "WebhookChange list"

record WebhookPayload =
  object :: string
  entry :: "WebhookEntry list"

subsection \<open>The parsed object and its typed view\<close>

text \<open>
  The handler gets its payload from \<^verbatim>\<open>c.req.json<WebhookPayload>()\<close>: the type is a
  cast of what \<^verbatim>\<open>JSON.parse\<close> returned. An object conforms to an interface when each
  required property is there with a value of its type and each optional property is
  either absent or there with a value of its type; it may have other properties. The
  functions below read an object as the record of its interface, and keep the object
  itself where the code serialises it. An object has each of its properties once.
\<close>

definition properties :: "json \<Rightarrow> (string \<times> json) list option" where
  "properties j = (case j of JObject ps \<Rightarrow> if distinct (map fst ps) then Some ps else None
                   | other \<Rightarrow> None)"

definition a_string :: "json \<Rightarrow> string option" where
  "a_string j = (case j of JString s \<Rightarrow> Some s | other \<Rightarrow> None)"

definition a_number :: "json \<Rightarrow> number option" where
  "a_number j = (case j of JNumber n \<Rightarrow> Some n | other \<Rightarrow> None)"

definition a_boolean :: "json \<Rightarrow> bool option" where
  "a_boolean j = (case j of JBool b \<Rightarrow> Some b | other \<Rightarrow> None)"

definition an_array :: "json \<Rightarrow> json list option" where
  "an_array j = (case j of JArray xs \<Rightarrow> Some xs | other \<Rightarrow> None)"

definition required :: "(json \<Rightarrow> 'a option) \<Rightarrow> string \<Rightarrow> (string \<times> json) list \<Rightarrow> 'a option" where
  "required f k ps = (case map_of ps k of None \<Rightarrow> None | Some j \<Rightarrow> f j)"

definition optional ::
  "(json \<Rightarrow> 'a option) \<Rightarrow> string \<Rightarrow> (string \<times> json) list \<Rightarrow> 'a option option" where
  "optional f k ps = (case map_of ps k of None \<Rightarrow> Some None | Some j \<Rightarrow> map_option Some (f j))"

definition TextContent_of_json :: "json \<Rightarrow> TextContent option" where
  "TextContent_of_json j = do {
     ps \<leftarrow> properties j;
     b \<leftarrow> required a_string ''body'' ps;
     Some \<lparr>body = b\<rparr> }"

definition MediaContent_of_json :: "json \<Rightarrow> MediaContent option" where
  "MediaContent_of_json j = do {
     ps \<leftarrow> properties j;
     i \<leftarrow> required a_string ''id'' ps;
     m \<leftarrow> required a_string ''mime_type'' ps;
     s \<leftarrow> optional a_string ''sha256'' ps;
     c \<leftarrow> optional a_string ''caption'' ps;
     Some \<lparr>media_id = i, mime_type = m, sha256 = s, media_caption = c\<rparr> }"

definition DocumentContent_of_json :: "json \<Rightarrow> DocumentContent option" where
  "DocumentContent_of_json j = do {
     ps \<leftarrow> properties j;
     i \<leftarrow> required a_string ''id'' ps;
     m \<leftarrow> required a_string ''mime_type'' ps;
     s \<leftarrow> optional a_string ''sha256'' ps;
     c \<leftarrow> optional a_string ''caption'' ps;
     f \<leftarrow> optional a_string ''filename'' ps;
     Some \<lparr>media_id = i, mime_type = m, sha256 = s, media_caption = c, filename = f\<rparr> }"

definition LocationContent_of_json :: "json \<Rightarrow> LocationContent option" where
  "LocationContent_of_json j = do {
     ps \<leftarrow> properties j;
     la \<leftarrow> required a_number ''latitude'' ps;
     lo \<leftarrow> required a_number ''longitude'' ps;
     n \<leftarrow> optional a_string ''name'' ps;
     a \<leftarrow> optional a_string ''address'' ps;
     Some \<lparr>loc_latitude = la, loc_longitude = lo, loc_name = n, loc_address = a\<rparr> }"

definition ButtonReply_of_json :: "json \<Rightarrow> ButtonReply option" where
  "ButtonReply_of_json j = do {
     ps \<leftarrow> properties j;
     i \<leftarrow> required a_string ''id'' ps;
     t \<leftarrow> required a_string ''title'' ps;
     Some \<lparr>br_id = i, br_title = t, br_properties = ps\<rparr> }"

definition ListReply_of_json :: "json \<Rightarrow> ListReply option" where
  "ListReply_of_json j = do {
     ps \<leftarrow> properties j;
     i \<leftarrow> required a_string ''id'' ps;
     t \<leftarrow> required a_string ''title'' ps;
     d \<leftarrow> optional a_string ''description'' ps;
     Some \<lparr>lr_id = i, lr_title = t, lr_description = d, lr_properties = ps\<rparr> }"

definition InteractiveType_of_json :: "json \<Rightarrow> InteractiveType option" where
  "InteractiveType_of_json j =
     (if j = JString ''button_reply'' then Some Button_reply
      else if j = JString ''list_reply'' then Some List_reply
      else None)"

definition InteractiveResponse_of_json :: "json \<Rightarrow> InteractiveResponse option" where
  "InteractiveResponse_of_json j = do {
     ps \<leftarrow> properties j;
     t \<leftarrow> required InteractiveType_of_json ''type'' ps;
     b \<leftarrow> optional ButtonReply_of_json ''button_reply'' ps;
     l \<leftarrow> optional ListReply_of_json ''list_reply'' ps;
     Some \<lparr>interactive_type = t, button_reply = b, list_reply = l\<rparr> }"

definition ButtonResponse_of_json :: "json \<Rightarrow> ButtonResponse option" where
  "ButtonResponse_of_json j = do {
     ps \<leftarrow> properties j;
     p \<leftarrow> required a_string ''payload'' ps;
     t \<leftarrow> required a_string ''text'' ps;
     Some \<lparr>btn_payload = p, btn_text = t\<rparr> }"

definition MessageContext_of_json :: "json \<Rightarrow> MessageContext option" where
  "MessageContext_of_json j = do {
     ps \<leftarrow> properties j;
     f \<leftarrow> required a_string ''from'' ps;
     i \<leftarrow> required a_string ''id'' ps;
     fw \<leftarrow> optional a_boolean ''forwarded'' ps;
     ff \<leftarrow> optional a_boolean ''frequently_forwarded'' ps;
     Some \<lparr>ctx_from = f, ctx_id = i, forwarded = fw, frequently_forwarded = ff\<rparr> }"

definition IncomingMessage_of_json :: "json \<Rightarrow> IncomingMessage option" where
  "IncomingMessage_of_json j = do {
     ps \<leftarrow> properties j;
     f \<leftarrow> required a_string ''from'' ps;
     i \<leftarrow> required a_string ''id'' ps;
     ts \<leftarrow> required a_string ''timestamp'' ps;
     ty \<leftarrow> required a_string ''type'' ps;
     tx \<leftarrow> optional TextContent_of_json ''text'' ps;
     im \<leftarrow> optional MediaContent_of_json ''image'' ps;
     vi \<leftarrow> optional MediaContent_of_json ''video'' ps;
     au \<leftarrow> optional MediaContent_of_json ''audio'' ps;
     dc \<leftarrow> optional DocumentContent_of_json ''document'' ps;
     sk \<leftarrow> optional MediaContent_of_json ''sticker'' ps;
     lc \<leftarrow> optional LocationContent_of_json ''location'' ps;
     cs \<leftarrow> optional an_array ''contacts'' ps;
     ia \<leftarrow> optional InteractiveResponse_of_json ''interactive'' ps;
     bt \<leftarrow> optional ButtonResponse_of_json ''button'' ps;
     cx \<leftarrow> optional MessageContext_of_json ''context'' ps;
     rf \<leftarrow> optional Some ''referral'' ps;
     Some \<lparr>msg_from = f, msg_id = i, msg_timestamp = ts, msg_type = ty, msg_text = tx,
            msg_image = im, msg_video = vi, msg_audio = au, msg_document = dc,
            msg_sticker = sk, msg_location = lc, msg_contacts = cs, msg_interactive = ia,
            msg_button = bt, msg_context = cx, msg_referral = rf, msg_properties = ps\<rparr> }"

section \<open>The store: the schema and the SQL statements of \<^verbatim>\<open>database.ts\<close>\<close>

text \<open>
  A table is the list of its rows in insertion order; a TEXT column is a string, a
  nullable column an \<open>option\<close>. Every \<^verbatim>\<open>datetime('now')\<close> of a statement is the
  reading \<open>now\<close> of the store's clock, a parameter of the statement. The primary keys
  are AUTOINCREMENT: a new row gets a rowid above every rowid the table has held, which
  \<^verbatim>\<open>sqlite_sequence\<close> remembers (the \<open>seq\<close> fields).
\<close>

record ContactRecord =
  c_id :: nat
  c_wa_id :: string
  c_name :: "string option"
  c_phone_number :: "string option"
  c_first_seen_at :: string
  c_last_message_at :: string
  c_created_at :: string
  c_updated_at :: string

record MessageRecord =
  m_id :: nat
  m_wa_message_id :: string
  m_contact_id :: nat
  m_direction :: string
  m_type :: string
  m_content :: "string option"
  m_media_id :: "string option"
  m_media_url :: "string option"
  m_media_mime_type :: "string option"
  m_media_filename :: "string option"
  m_caption :: "string option"
  m_latitude :: "number option"
  m_longitude :: "number option"
  m_location_name :: "string option"
  m_location_address :: "string option"
  m_reply_to_message_id :: "string option"
  m_status :: string
  m_timestamp :: string
  m_created_at :: string

record StatusRecord =
  h_id :: nat
  h_wa_message_id :: string
  h_status :: string
  h_timestamp :: string
  h_error_code :: "number option"
  h_error_message :: "string option"
  h_created_at :: string

record ConversationRecord =
  cv_id :: nat
  cv_wa_conversation_id :: string
  cv_contact_id :: nat
  cv_origin_type :: string
  cv_started_at :: string
  cv_expires_at :: "string option"
  cv_created_at :: string

record InteractiveRecord =
  ir_id :: nat
  ir_message_id :: nat
  ir_response_type :: string
  ir_response_id :: string
  ir_response_title :: string
  ir_response_description :: "string option"
  ir_created_at :: string

record D1Database =
  contacts :: "ContactRecord list"
  messages :: "MessageRecord list"
  message_statuses :: "StatusRecord list"
  conversations :: "ConversationRecord list"
  interactive_responses :: "InteractiveRecord list"
  seq_contacts :: nat
  seq_messages :: nat
  seq_message_statuses :: nat
  seq_conversations :: nat
  seq_interactive_responses :: nat

definition empty_db :: D1Database where
  "empty_db =
     \<lparr>contacts = [], messages = [], message_statuses = [], conversations = [],
      interactive_responses = [], seq_contacts = 0, seq_messages = 0,
      seq_message_statuses = 0, seq_conversations = 0, seq_interactive_responses = 0\<rparr>"

definition rowid :: "nat \<Rightarrow> nat list \<Rightarrow> nat" where
  "rowid seq ids = Suc (fold max ids seq)"

subsection \<open>contacts\<close>

text \<open>\<^verbatim>\<open>SELECT * FROM contacts WHERE wa_id = ?\<close>, first row.\<close>

definition select_contact :: "string \<Rightarrow> D1Database \<Rightarrow> ContactRecord option" where
  "select_contact waId db = find (\<lambda>c. c_wa_id c = waId) (contacts db)"

text \<open>
  \<^verbatim>\<open>UPDATE contacts SET name = COALESCE(?, name), last_message_at = datetime('now'),
  updated_at = datetime('now') WHERE wa_id = ?\<close>
\<close>

definition update_contact :: "string \<Rightarrow> string option \<Rightarrow> string \<Rightarrow> D1Database \<Rightarrow> D1Database" where
  "update_contact now name waId db =
     db\<lparr>contacts :=
          map (\<lambda>c. if c_wa_id c = waId
                    then c\<lparr>c_name := (case name of Some n \<Rightarrow> Some n | None \<Rightarrow> c_name c),
                           c_last_message_at := now, c_updated_at := now\<rparr>
                    else c)
              (contacts db)\<rparr>"

text \<open>
  \<^verbatim>\<open>INSERT INTO contacts (wa_id, name, phone_number) VALUES (?, ?, ?) RETURNING *\<close>;
  \<^verbatim>\<open>wa_id\<close> is UNIQUE, the four time columns default to \<^verbatim>\<open>datetime('now')\<close>.
\<close>

definition insert_contact ::
  "string \<Rightarrow> string \<Rightarrow> string option \<Rightarrow> string option \<Rightarrow> D1Database
     \<Rightarrow> (error + ContactRecord) \<times> D1Database" where
  "insert_contact now waId name phone db =
     (if \<exists>c \<in> set (contacts db). c_wa_id c = waId
      then (Inl (D1_ERROR ''UNIQUE constraint failed: contacts.wa_id''), db)
      else
        let row = \<lparr>c_id = rowid (seq_contacts db) (map c_id (contacts db)), c_wa_id = waId,
                   c_name = name, c_phone_number = phone, c_first_seen_at = now,
                   c_last_message_at = now, c_created_at = now, c_updated_at = now\<rparr>
        in (Inr row, db\<lparr>contacts := contacts db @ [row], seq_contacts := c_id row\<rparr>))"

subsection \<open>messages\<close>

text \<open>
  \<^verbatim>\<open>INSERT INTO messages (...) VALUES (...) RETURNING *\<close>: \<^verbatim>\<open>wa_message_id\<close> is
  UNIQUE and \<^verbatim>\<open>contact_id\<close> references \<^verbatim>\<open>contacts(id)\<close>. The argument holds the
  bound columns; the store assigns \<open>m_id\<close> and \<open>m_created_at\<close>.
\<close>

definition insert_message ::
  "string \<Rightarrow> MessageRecord \<Rightarrow> D1Database \<Rightarrow> (error + MessageRecord) \<times> D1Database" where
  "insert_message now cols db =
     (if \<exists>m \<in> set (messages db). m_wa_message_id m = m_wa_message_id cols
      then (Inl (D1_ERROR ''UNIQUE constraint failed: messages.wa_message_id''), db)
      else if m_contact_id cols \<notin> set (map c_id (contacts db))
      then (Inl (D1_ERROR ''FOREIGN KEY constraint failed''), db)
      else
        let row = cols\<lparr>m_id := rowid (seq_messages db) (map m_id (messages db)),
                       m_created_at := now\<rparr>
        in (Inr row, db\<lparr>messages := messages db @ [row], seq_messages := m_id row\<rparr>))"

text \<open>
  \<^verbatim>\<open>UPDATE messages SET status = ? WHERE wa_message_id = ?\<close>; the column's CHECK is
  evaluated on the rows the statement changes.
\<close>

definition update_message_status ::
  "string \<Rightarrow> string \<Rightarrow> D1Database \<Rightarrow> (error + unit) \<times> D1Database" where
  "update_message_status status waMessageId db =
     (if (\<exists>m \<in> set (messages db). m_wa_message_id m = waMessageId)
         \<and> status \<notin> set [''received'', ''sent'', ''delivered'', ''read'', ''failed'']
      then (Inl (D1_ERROR ''CHECK constraint failed: status''), db)
      else (Inr (),
            db\<lparr>messages :=
                 map (\<lambda>m. if m_wa_message_id m = waMessageId then m\<lparr>m_status := status\<rparr> else m)
                     (messages db)\<rparr>))"

text \<open>
  \<^verbatim>\<open>SELECT c.id FROM contacts c JOIN messages m ON m.contact_id = c.id
  WHERE m.wa_message_id = ?\<close>, first row.
\<close>

definition join_contacts_messages :: "string \<Rightarrow> D1Database \<Rightarrow> nat list" where
  "join_contacts_messages waMessageId db =
     [c_id c. m \<leftarrow> messages db, m_wa_message_id m = waMessageId,
              c \<leftarrow> contacts db, c_id c = m_contact_id m]"

definition select_contact_of_message :: "string \<Rightarrow> D1Database \<Rightarrow> nat option" where
  "select_contact_of_message waMessageId db =
     (case join_contacts_messages waMessageId db of [] \<Rightarrow> None | i # rest \<Rightarrow> Some i)"

subsection \<open>message\_statuses, conversations, interactive\_responses\<close>

text \<open>
  \<^verbatim>\<open>INSERT INTO message_statuses (wa_message_id, status, timestamp, error_code,
  error_message) VALUES (?, ?, ?, ?, ?)\<close>: the table has no uniqueness and no foreign key.
\<close>

definition insert_message_status ::
  "string \<Rightarrow> string \<Rightarrow> string \<Rightarrow> string \<Rightarrow> number option \<Rightarrow> string option \<Rightarrow> D1Database
     \<Rightarrow> D1Database" where
  "insert_message_status now waMessageId status timestamp errorCode errorMessage db =
     (let row = \<lparr>h_id = rowid (seq_message_statuses db) (map h_id (message_statuses db)),
                 h_wa_message_id = waMessageId, h_status = status, h_timestamp = timestamp,
                 h_error_code = errorCode, h_error_message = errorMessage, h_created_at = now\<rparr>
      in db\<lparr>message_statuses := message_statuses db @ [row],
            seq_message_statuses := h_id row\<rparr>)"

text \<open>
  \<^verbatim>\<open>INSERT OR IGNORE INTO conversations (wa_conversation_id, contact_id, origin_type,
  started_at, expires_at) VALUES (?, ?, ?, datetime('now'), ?)\<close>: a row that would break
  the UNIQUE \<^verbatim>\<open>wa_conversation_id\<close> is skipped, the rowid drawn for it is not given
  again; a broken foreign key still aborts.
\<close>

definition insert_or_ignore_conversation ::
  "string \<Rightarrow> string \<Rightarrow> nat \<Rightarrow> string \<Rightarrow> string option \<Rightarrow> D1Database
     \<Rightarrow> (error + unit) \<times> D1Database" where
  "insert_or_ignore_conversation now conversationId contactId originType expiresAt db =
     (if \<exists>v \<in> set (conversations db). cv_wa_conversation_id v = conversationId
      then (Inr (), db\<lparr>seq_conversations :=
                           rowid (seq_conversations db) (map cv_id (conversations db))\<rparr>)
      else if contactId \<notin> set (map c_id (contacts db))
      then (Inl (D1_ERROR ''FOREIGN KEY constraint failed''), db)
      else
        let row = \<lparr>cv_id = rowid (seq_conversations db) (map cv_id (conversations db)),
                   cv_wa_conversation_id = conversationId, cv_contact_id = contactId,
                   cv_origin_type = originType, cv_started_at = now, cv_expires_at = expiresAt,
                   cv_created_at = now\<rparr>
        in (Inr (), db\<lparr>conversations := conversations db @ [row],
                         seq_conversations := cv_id row\<rparr>))"

text \<open>
  \<^verbatim>\<open>INSERT INTO interactive_responses (message_id, response_type, response_id,
  response_title, response_description) VALUES (?, ?, ?, ?, ?)\<close>: \<^verbatim>\<open>response_type\<close>
  has a CHECK and \<^verbatim>\<open>message_id\<close> references \<^verbatim>\<open>messages(id)\<close>.
\<close>

definition insert_interactive_response ::
  "string \<Rightarrow> nat \<Rightarrow> string \<Rightarrow> string \<Rightarrow> string \<Rightarrow> string option \<Rightarrow> D1Database
     \<Rightarrow> (error + unit) \<times> D1Database" where
  "insert_interactive_response now messageId responseType responseId responseTitle
       responseDescription db =
     (if responseType \<notin> set [''button_reply'', ''list_reply'']
      then (Inl (D1_ERROR ''CHECK constraint failed: response_type''), db)
      else if messageId \<notin> set (map m_id (messages db))
      then (Inl (D1_ERROR ''FOREIGN KEY constraint failed''), db)
      else
        let row = \<lparr>ir_id = rowid (seq_interactive_responses db)
                            (map ir_id (interactive_responses db)),
                   ir_message_id = messageId, ir_response_type = responseType,
                   ir_response_id = responseId, ir_response_title = responseTitle,
                   ir_response_description = responseDescription, ir_created_at = now\<rparr>
        in (Inr (), db\<lparr>interactive_responses := interactive_responses db @ [row],
                         seq_interactive_responses := ir_id row\<rparr>))"

section \<open>\<^verbatim>\<open>DatabaseService\<close> (\<^verbatim>\<open>src/lib/database.ts\<close>)\<close>

text \<open>
  A method takes the reading \<open>now\<close> of the store's clock during the call and gives it
  to each of its statements.
\<close>

subsection \<open>\<^verbatim>\<open>findOrCreateContact\<close>\<close>

text \<open>
  The method looks the contact up; a row found is updated, with \<^verbatim>\<open>name || null\<close>
  bound to the \<^verbatim>\<open>COALESCE\<close>, and returned as
  \<^verbatim>\<open>{ ...existing, name: name || existing.name }\<close>; otherwise a row is inserted.
\<close>

definition findOrCreateContact ::
  "string \<Rightarrow> string \<Rightarrow> string option \<Rightarrow> D1Database \<Rightarrow> (error + ContactRecord) \<times> D1Database" where
  "findOrCreateContact now waId name db =
     (case select_contact waId db of
        Some existing \<Rightarrow>
          (Inr (existing\<lparr>c_name := (case or_null name of Some n \<Rightarrow> Some n
                                      | None \<Rightarrow> c_name existing)\<rparr>),
           update_contact now (or_null name) waId db)
      | None \<Rightarrow> insert_contact now waId (or_null name) (Some waId) db)"

subsection \<open>\<^verbatim>\<open>saveIncomingMessage\<close>\<close>

text \<open>The nine local variables the switch on \<^verbatim>\<open>message.type\<close> fills, all \<^verbatim>\<open>null\<close> at first.\<close>

record Extracted =
  content :: bound
  mediaId :: "string option"
  mediaMimeType :: "string option"
  mediaFilename :: "string option"
  caption :: "string option"
  latitude :: "number option"
  longitude :: "number option"
  locationName :: "string option"
  locationAddress :: "string option"

definition nulls :: Extracted where
  "nulls =
     \<lparr>content = Null, mediaId = None, mediaMimeType = None, mediaFilename = None,
      caption = None, latitude = None, longitude = None, locationName = None,
      locationAddress = None\<rparr>"

text \<open>
  \<^verbatim>\<open>JSON.stringify(x)\<close> of a property that may be absent: \<^verbatim>\<open>undefined\<close> stays
  \<^verbatim>\<open>undefined\<close>. The function \<open>f\<close> gives the value that the property holds: the
  object of a reply, the array of the contact cards.
\<close>

definition stringify_opt :: "(number \<Rightarrow> string) \<Rightarrow> ('a \<Rightarrow> json) \<Rightarrow> 'a option \<Rightarrow> bound" where
  "stringify_opt num f x =
     (case x of None \<Rightarrow> Undefined | Some v \<Rightarrow> Text (JSON_stringify num (f v)))"

definition extractContent :: "(number \<Rightarrow> string) \<Rightarrow> IncomingMessage \<Rightarrow> Extracted" where
  "extractContent num message =
     (if msg_type message = ''text'' then
        nulls\<lparr>content := bound_of (or_null (map_option body (msg_text message)))\<rparr>
      else if msg_type message = ''image'' then
        nulls\<lparr>mediaId := or_null (map_option media_id (msg_image message)),
              mediaMimeType := or_null (map_option mime_type (msg_image message)),
              caption := or_null (Option.bind (msg_image message) media_caption)\<rparr>
      else if msg_type message = ''video'' then
        nulls\<lparr>mediaId := or_null (map_option media_id (msg_video message)),
              mediaMimeType := or_null (map_option mime_type (msg_video message)),
              caption := or_null (Option.bind (msg_video message) media_caption)\<rparr>
      else if msg_type message = ''audio'' then
        nulls\<lparr>mediaId := or_null (map_option media_id (msg_audio message)),
              mediaMimeType := or_null (map_option mime_type (msg_audio message))\<rparr>
      else if msg_type message = ''document'' then
        nulls\<lparr>mediaId := or_null (map_option media_id (msg_document message)),
              mediaMimeType := or_null (map_option mime_type (msg_document message)),
              mediaFilename := or_null (Option.bind (msg_document message) filename),
              caption := or_null (Option.bind (msg_document message) media_caption)\<rparr>
      else if msg_type message = ''sticker'' then
        nulls\<lparr>mediaId := or_null (map_option media_id (msg_sticker message)),
              mediaMimeType := or_null (map_option mime_type (msg_sticker message))\<rparr>
      else if msg_type message = ''location'' then
        nulls\<lparr>latitude := num_or_null (map_option loc_latitude (msg_location message)),
              longitude := num_or_null (map_option loc_longitude (msg_location message)),
              locationName := or_null (Option.bind (msg_location message) loc_name),
              locationAddress := or_null (Option.bind (msg_location message) loc_address)\<rparr>
      else if msg_type message = ''interactive'' then
        (case msg_interactive message of
           None \<Rightarrow> nulls
         | Some i \<Rightarrow>
             if interactive_type i = Button_reply then
               nulls\<lparr>content := stringify_opt num (\<lambda>r. JObject (br_properties r)) (button_reply i)\<rparr>
             else if interactive_type i = List_reply then
               nulls\<lparr>content := stringify_opt num (\<lambda>r. JObject (lr_properties r)) (list_reply i)\<rparr>
             else nulls)
      else if msg_type message = ''button'' then
        nulls\<lparr>content := bound_of (or_null (map_option btn_text (msg_button message)))\<rparr>
      else if msg_type message = ''contacts'' then
        nulls\<lparr>content := stringify_opt num JArray (msg_contacts message)\<rparr>
      else
        nulls\<lparr>content := Text (JSON_stringify num (JObject (msg_properties message)))\<rparr>)"

text \<open>
  The second part of the method, run when the message row is in: the selection of an
  interactive message goes to \<^verbatim>\<open>interactive_responses\<close>. The description is bound
  when the reply has the property (\<^verbatim>\<open>'description' in response\<close>).
\<close>

definition saveInteractiveResponse ::
  "string \<Rightarrow> IncomingMessage \<Rightarrow> MessageRecord \<Rightarrow> D1Database \<Rightarrow> (error + unit) \<times> D1Database" where
  "saveInteractiveResponse now message result db =
     (if msg_type message = ''interactive'' then
        (case msg_interactive message of
           None \<Rightarrow> (Inr (), db)
         | Some i \<Rightarrow>
             let responseType = interactiveText (interactive_type i) in
             if interactive_type i = Button_reply then
               (case button_reply i of
                  None \<Rightarrow> (Inr (), db)
                | Some response \<Rightarrow>
                    insert_interactive_response now (m_id result) responseType
                      (br_id response) (br_title response) None db)
             else
               (case list_reply i of
                  None \<Rightarrow> (Inr (), db)
                | Some response \<Rightarrow>
                    insert_interactive_response now (m_id result) responseType
                      (lr_id response) (lr_title response) (lr_description response) db))
      else (Inr (), db))"

text \<open>What \<^verbatim>\<open>.bind()\<close> makes of the content for the TEXT column.\<close>

definition bind_text :: "bound \<Rightarrow> error + string option" where
  "bind_text b = (case b of Undefined \<Rightarrow> Inl D1_TYPE_ERROR | Null \<Rightarrow> Inr None | Text s \<Rightarrow> Inr (Some s))"

text \<open>
  The method: the contact first; then the switch and the timestamp, which can throw
  \<^verbatim>\<open>RangeError\<close>; then the INSERT, whose \<^verbatim>\<open>.bind()\<close> refuses an
  \<^verbatim>\<open>undefined\<close> content; then the interactive selection. What an earlier statement
  wrote stays when a later one throws.
\<close>

definition saveIncomingMessage ::
  "(number \<Rightarrow> string) \<Rightarrow> string \<Rightarrow> IncomingMessage \<Rightarrow> WebhookContact option \<Rightarrow> D1Database
     \<Rightarrow> (error + MessageRecord) \<times> D1Database" where
  "saveIncomingMessage num now message contact db =
     (case findOrCreateContact now (msg_from message)
             (map_option (\<lambda>c. profile_name (profile c)) contact) db of
        (Inl e, db1) \<Rightarrow> (Inl e, db1)
      | (Inr contactRecord, db1) \<Rightarrow>
          let x = extractContent num message in
          (case epochToISO (msg_timestamp message) of
             Inl e \<Rightarrow> (Inl e, db1)
           | Inr timestamp \<Rightarrow>
               (case bind_text (content x) of
                  Inl e \<Rightarrow> (Inl e, db1)
                | Inr contentText \<Rightarrow>
                    (case insert_message now
                            \<lparr>m_id = 0, m_wa_message_id = msg_id message,
                             m_contact_id = c_id contactRecord, m_direction = ''incoming'',
                             m_type = msg_type message, m_content = contentText,
                             m_media_id = mediaId x, m_media_url = None,
                             m_media_mime_type = mediaMimeType x,
                             m_media_filename = mediaFilename x, m_caption = caption x,
                             m_latitude = latitude x, m_longitude = longitude x,
                             m_location_name = locationName x,
                             m_location_address = locationAddress x,
                             m_reply_to_message_id =
                               or_null (map_option ctx_id (msg_context message)),
                             m_status = ''received'', m_timestamp = timestamp,
                             m_created_at = now\<rparr> db1 of
                       (Inl e, db2) \<Rightarrow> (Inl e, db2)
                     | (Inr result, db2) \<Rightarrow>
                         (case saveInteractiveResponse now message result db2 of
                            (Inl e, db3) \<Rightarrow> (Inl e, db3)
                          | (Inr u, db3) \<Rightarrow> (Inr result, db3))))))"

subsection \<open>\<^verbatim>\<open>updateMessageStatus\<close>\<close>

text \<open>\<^verbatim>\<open>status.errors?.[0]\<close>\<close>

definition first_error :: "MessageStatus \<Rightarrow> WebhookError option" where
  "first_error status =
     (case st_errors status of None \<Rightarrow> None | Some [] \<Rightarrow> None | Some (e # es) \<Rightarrow> Some e)"

text \<open>
  The timestamp is converted first. Then the three steps: the UPDATE of the message's
  status, the INSERT of the history row, and, when the event carries a conversation and
  the join finds the contact of the message, the INSERT OR IGNORE of the conversation.
\<close>

definition updateMessageStatus ::
  "string \<Rightarrow> MessageStatus \<Rightarrow> D1Database \<Rightarrow> (error + unit) \<times> D1Database" where
  "updateMessageStatus now status db =
     (case epochToISO (st_timestamp status) of
        Inl e \<Rightarrow> (Inl e, db)
      | Inr timestamp \<Rightarrow>
          (case update_message_status (statusText (st_status status)) (st_id status) db of
             (Inl e, db1) \<Rightarrow> (Inl e, db1)
           | (Inr u, db1) \<Rightarrow>
               let errorCode = num_or_null (map_option err_code (first_error status));
                   errorMessage = or_null (map_option err_message (first_error status));
                   db2 = insert_message_status now (st_id status) (statusText (st_status status))
                           timestamp errorCode errorMessage db1
               in (case st_conversation status of
                     None \<Rightarrow> (Inr (), db2)
                   | Some conversation \<Rightarrow>
                       (case select_contact_of_message (st_id status) db2 of
                          None \<Rightarrow> (Inr (), db2)
                        | Some contactId \<Rightarrow>
                            insert_or_ignore_conversation now (conv_id conversation) contactId
                              (originText (origin_type (origin conversation)))
                              (or_null (expiration_timestamp conversation)) db2))))"

section \<open>The webhook route (\<^verbatim>\<open>src/routes/webhook.ts\<close>)\<close>

text \<open>
  The helpers of the route take the \<^verbatim>\<open>DatabaseService\<close> as an argument and call two
  of its methods. In the model the service is the pair of these methods over a store of
  any type, so that what is proved of the route holds for every behaviour of the store,
  whichever calls fail; \<open>D1_DatabaseService\<close> is the service of
  \<^verbatim>\<open>database.ts\<close>. The route also writes to the console, which is part of the state.
\<close>

record 'db DatabaseService =
  svc_saveIncomingMessage ::
    "IncomingMessage \<Rightarrow> WebhookContact option \<Rightarrow> 'db \<Rightarrow> (error + MessageRecord) \<times> 'db"
  svc_updateMessageStatus :: "MessageStatus \<Rightarrow> 'db \<Rightarrow> (error + unit) \<times> 'db"

definition D1_DatabaseService :: "(number \<Rightarrow> string) \<Rightarrow> string \<Rightarrow> D1Database DatabaseService" where
  "D1_DatabaseService num now =
     \<lparr>svc_saveIncomingMessage = saveIncomingMessage num now,
      svc_updateMessageStatus = updateMessageStatus now\<rparr>"

datatype console_entry =
    log_webhook_received string
  | log_message_received string string string string
  | log_message_saved nat
  | log_content string "string option"
  | log_location "string option" "number option" "number option"
  | log_status_update string StatusValue string
  | log_status_updated StatusValue
  | error_saving_message error
  | error_updating_status error
  | error_delivery_failed WebhookError
  | error_webhook WebhookError
  | error_webhook_processing error

record 'db World =
  console :: "console_entry list"
  DB :: 'db

definition emit :: "console_entry list \<Rightarrow> 'db World \<Rightarrow> 'db World" where
  "emit es w = w\<lparr>console := console w @ es\<rparr>"

text \<open>The switch of \<^verbatim>\<open>handleIncomingMessage\<close> that logs the content of a saved message.\<close>

definition content_log :: "IncomingMessage \<Rightarrow> console_entry list" where
  "content_log message =
     (if msg_type message = ''text'' then
        [log_content ''Text:'' (map_option body (msg_text message))]
      else if msg_type message = ''image'' then
        [log_content ''Image received:'' (map_option media_id (msg_image message))]
      else if msg_type message = ''video'' then
        [log_content ''Video received:'' (map_option media_id (msg_video message))]
      else if msg_type message = ''audio'' then
        [log_content ''Audio received:'' (map_option media_id (msg_audio message))]
      else if msg_type message = ''document'' then
        [log_content ''Document:'' (Option.bind (msg_document message) filename)]
      else if msg_type message = ''location'' then
        [log_location (Option.bind (msg_location message) loc_name)
           (map_option loc_latitude (msg_location message))
           (map_option loc_longitude (msg_location message))]
      else if msg_type message = ''interactive'' then
        (case msg_interactive message of
           None \<Rightarrow> []
         | Some i \<Rightarrow>
             if interactive_type i = Button_reply then
               [log_content ''Button clicked:'' (map_option br_title (button_reply i))]
             else if interactive_type i = List_reply then
               [log_content ''List selected:'' (map_option lr_title (list_reply i))]
             else [])
      else [log_content ''Message type:'' (Some (msg_type message))])"

text \<open>
  \<^verbatim>\<open>handleIncomingMessage\<close>: the sender's profile is looked up among the contacts of
  the notification (\<^verbatim>\<open>webhookValue.contacts?.find(...)\<close>), the message is announced,
  and the save runs inside \<^verbatim>\<open>try { ... } catch\<close>: an exception is logged and goes no
  further.
\<close>

definition find_contact :: "WebhookValue \<Rightarrow> IncomingMessage \<Rightarrow> WebhookContact option" where
  "find_contact webhookValue message =
     (case wv_contacts webhookValue of
        None \<Rightarrow> None
      | Some cs \<Rightarrow> find (\<lambda>c. wc_wa_id c = msg_from message) cs)"

text \<open>\<^verbatim>\<open>contact?.profile?.name || 'Unknown'\<close>\<close>

definition senderName :: "WebhookContact option \<Rightarrow> string" where
  "senderName contact =
     (case or_null (map_option (\<lambda>c. profile_name (profile c)) contact) of
        Some n \<Rightarrow> n
      | None \<Rightarrow> ''Unknown'')"

definition handleIncomingMessage ::
  "'db DatabaseService \<Rightarrow> IncomingMessage \<Rightarrow> WebhookValue \<Rightarrow> 'db World \<Rightarrow> 'db World" where
  "handleIncomingMessage db message webhookValue w =
     (let contact = find_contact webhookValue message;
          w1 = emit [log_message_received (senderName contact) (msg_from message)
                       (msg_id message) (msg_type message)] w
      in case svc_saveIncomingMessage db message contact (DB w1) of
           (Inr savedMessage, store) \<Rightarrow>
             emit (log_message_saved (m_id savedMessage) # content_log message)
               (w1\<lparr>DB := store\<rparr>)
         | (Inl e, store) \<Rightarrow> emit [error_saving_message e] (w1\<lparr>DB := store\<rparr>))"

text \<open>
  \<^verbatim>\<open>handleStatusUpdate\<close>: the same \<^verbatim>\<open>try { ... } catch\<close> around the update; the
  errors of a failed delivery are logged afterwards.
\<close>

definition handleStatusUpdate ::
  "'db DatabaseService \<Rightarrow> MessageStatus \<Rightarrow> 'db World \<Rightarrow> 'db World" where
  "handleStatusUpdate db status w =
     (let w1 = emit [log_status_update (st_id status) (st_status status) (recipient_id status)] w;
          w2 = (case svc_updateMessageStatus db status (DB w1) of
                  (Inr u, store) \<Rightarrow> emit [log_status_updated (st_status status)] (w1\<lparr>DB := store\<rparr>)
                | (Inl e, store) \<Rightarrow> emit [error_updating_status e] (w1\<lparr>DB := store\<rparr>))
      in if st_status status = failed then
           (case st_errors status of
              None \<Rightarrow> w2
            | Some errors \<Rightarrow> emit (map error_delivery_failed errors) w2)
         else w2)"

text \<open>
  \<^verbatim>\<open>processMessagesChange\<close>: the three \<^verbatim>\<open>for ... of\<close> loops over the messages, the
  statuses and the errors of one change, in this order.
\<close>

definition processMessagesChange ::
  "'db DatabaseService \<Rightarrow> WebhookValue \<Rightarrow> 'db World \<Rightarrow> 'db World" where
  "processMessagesChange db v w =
     (let w1 = emit [log_webhook_received (display_phone_number (metadata v))] w;
          w2 = (case wv_messages v of
                  None \<Rightarrow> w1
                | Some msgs \<Rightarrow> fold (\<lambda>message. handleIncomingMessage db message v) msgs w1);
          w3 = (case wv_statuses v of
                  None \<Rightarrow> w2
                | Some statuses \<Rightarrow> fold (handleStatusUpdate db) statuses w2)
      in case wv_errors v of
           None \<Rightarrow> w3
         | Some errors \<Rightarrow> emit (map error_webhook errors) w3)"

datatype Response = text_response string nat | json_response json nat

text \<open>
  The POST handler. Its argument is what \<^verbatim>\<open>await c.req.json()\<close> gives: the payload,
  or the exception of a body that is not JSON, which the outer \<^verbatim>\<open>catch\<close> answers
  with \<^verbatim>\<open>200 OK\<close>.
\<close>

definition webhook_post ::
  "'db DatabaseService \<Rightarrow> error + WebhookPayload \<Rightarrow> 'db World \<Rightarrow> Response \<times> 'db World" where
  "webhook_post db request w =
     (case request of
        Inl e \<Rightarrow> (text_response ''OK'' 200, emit [error_webhook_processing e] w)
      | Inr payload \<Rightarrow>
          if object payload \<noteq> ''whatsapp_business_account''
          then (json_response (JObject [(''error'', JString ''Invalid webhook object'')]) 400, w)
          else (text_response ''OK'' 200,
                fold (\<lambda>e. fold (\<lambda>change w'. if field change = ''messages''
                                              then processMessagesChange db (change_value change) w'
                                              else w')
                                (changes e))
                     (entry payload) w))"

section \<open>Notions the properties are stated with\<close>

text \<open>
  A sequence of status events applied in order, each by one call of
  \<^verbatim>\<open>updateMessageStatus\<close> at its own reading of the clock.
\<close>

fun apply_statuses :: "(string \<times> MessageStatus) list \<Rightarrow> D1Database \<Rightarrow> D1Database" where
  "apply_statuses [] db = db"
| "apply_statuses ((now, status) # evs) db =
     apply_statuses evs (snd (updateMessageStatus now status db))"

text \<open>
  The items of a notification in the order received: entry by entry, change by change
  (the changes of the messaging field), the messages of a change before its statuses.
  A message item carries the value it arrived in, where its sender's profile is looked up.
\<close>

datatype item = Message_item IncomingMessage WebhookValue | Status_item MessageStatus

definition items_of_value :: "WebhookValue \<Rightarrow> item list" where
  "items_of_value v =
     map (\<lambda>m. Message_item m v) (case wv_messages v of None \<Rightarrow> [] | Some ms \<Rightarrow> ms)
     @ map Status_item (case wv_statuses v of None \<Rightarrow> [] | Some ss \<Rightarrow> ss)"

definition items_of_payload :: "WebhookPayload \<Rightarrow> item list" where
  "items_of_payload p =
     concat (map (\<lambda>e. concat (map (\<lambda>c. items_of_value (change_value c))
                                  (filter (\<lambda>c. field c = ''messages'') (changes e))))
                 (entry p))"

text \<open>One call of the service for an item; whatever it returns or throws, the store it leaves.\<close>

fun attempt :: "'db DatabaseService \<Rightarrow> item \<Rightarrow> 'db \<Rightarrow> 'db" where
  "attempt db (Message_item m v) store =
     snd (svc_saveIncomingMessage db m (find_contact v m) store)"
| "attempt db (Status_item s) store = snd (svc_updateMessageStatus db s store)"

text \<open>The console line that announces an item before the service is called for it.\<close>

fun announcement :: "item \<Rightarrow> console_entry" where
  "announcement (Message_item m v) =
     log_message_received (senderName (find_contact v m)) (msg_from m) (msg_id m) (msg_type m)"
| "announcement (Status_item s) = log_status_update (st_id s) (st_status s) (recipient_id s)"

fun is_announcement :: "console_entry \<Rightarrow> bool" where
  "is_announcement (log_message_received n f i t) = True"
| "is_announcement (log_status_update i s r) = True"
| "is_announcement e = False"

text \<open>
  \<open>processed db items w w'\<close>: from \<open>w\<close> to \<open>w'\<close> the service was called once for every
  item, in the order of the list, each call starting from the store the call before it
  left; and the console announced these items in this order.
\<close>

definition processed :: "'db DatabaseService \<Rightarrow> item list \<Rightarrow> 'db World \<Rightarrow> 'db World \<Rightarrow> bool" where
  "processed db items w w' \<longleftrightarrow>
     DB w' = fold (attempt db) items (DB w)
     \<and> filter is_announcement (console w')
         = filter is_announcement (console w) @ map announcement items"

section \<open>Calls that run at the same time\<close>

text \<open>
  D1 executes one statement at a time, and a method awaits each of its statements before
  it issues the next. Invocations of the worker that run at the same time therefore
  interleave their statements: an execution is a sequence of statements, each applied to
  the store the one before it left. Any statement of the write path may stand in such a
  sequence, with any arguments.
\<close>

datatype statement =
    INSERT_contact string string "string option" "string option"
  | UPDATE_contact string "string option" string
  | INSERT_message string MessageRecord
  | UPDATE_message_status string string
  | INSERT_message_status string string string string "number option" "string option"
  | INSERT_OR_IGNORE_conversation string string nat string "string option"
  | INSERT_interactive_response string nat string string string "string option"

fun execute :: "statement \<Rightarrow> D1Database \<Rightarrow> D1Database" where
  "execute (INSERT_contact now waId name phone) db = snd (insert_contact now waId name phone db)"
| "execute (UPDATE_contact now name waId) db = update_contact now name waId db"
| "execute (INSERT_message now cols) db = snd (insert_message now cols db)"
| "execute (UPDATE_message_status status waMessageId) db =
     snd (update_message_status status waMessageId db)"
| "execute (INSERT_message_status now waMessageId status timestamp errorCode errorMessage) db =
     insert_message_status now waMessageId status timestamp errorCode errorMessage db"
| "execute (INSERT_OR_IGNORE_conversation now conversationId contactId originType expiresAt) db =
     snd (insert_or_ignore_conversation now conversationId contactId originType expiresAt db)"
| "execute (INSERT_interactive_response now messageId responseType responseId responseTitle
       responseDescription) db =
     snd (insert_interactive_response now messageId responseType responseId responseTitle
            responseDescription db)"

text \<open>
  A running call of \<^verbatim>\<open>findOrCreateContact\<close>: its arguments and where it stands. The
  method awaits twice, so it has two steps: the SELECT, after which it holds the row found
  or knows the address absent, and then the UPDATE or the INSERT, after which it has
  returned or thrown.
\<close>

datatype progress =
    Start
  | Found ContactRecord
  | Absent
  | Returned "error + ContactRecord"

record Call =
  call_now :: string
  call_waId :: string
  call_name :: "string option"
  stage :: progress

definition step :: "Call \<Rightarrow> D1Database \<Rightarrow> Call \<times> D1Database" where
  "step c db =
     (case stage c of
        Start \<Rightarrow>
          (c\<lparr>stage := (case select_contact (call_waId c) db of
                        Some existing \<Rightarrow> Found existing
                      | None \<Rightarrow> Absent)\<rparr>, db)
      | Found existing \<Rightarrow>
          (c\<lparr>stage := Returned (Inr (existing\<lparr>c_name :=
                        (case or_null (call_name c) of Some n \<Rightarrow> Some n
                         | None \<Rightarrow> c_name existing)\<rparr>))\<rparr>,
           update_contact (call_now c) (or_null (call_name c)) (call_waId c) db)
      | Absent \<Rightarrow>
          (case insert_contact (call_now c) (call_waId c) (or_null (call_name c))
                  (Some (call_waId c)) db of
             (r, db') \<Rightarrow> (c\<lparr>stage := Returned r\<rparr>, db'))
      | Returned r \<Rightarrow> (c, db))"

text \<open>
  A schedule says, event by event, which call takes its next step, or which other
  statement (of any other invocation) is executed in between.
\<close>

datatype event = Step nat | Other statement

fun run :: "event list \<Rightarrow> Call list \<times> D1Database \<Rightarrow> Call list \<times> D1Database" where
  "run [] s = s"
| "run (Step i # es) (cs, db) =
     (if i < length cs
      then (case step (cs ! i) db of (c', db') \<Rightarrow> run es (cs[i := c'], db'))
      else run es (cs, db))"
| "run (Other st # es) (cs, db) = run es (cs, execute st db)"

text \<open>The three UNIQUE columns of the schema hold no value twice.\<close>

definition unique_columns :: "D1Database \<Rightarrow> bool" where
  "unique_columns db \<longleftrightarrow>
     distinct (map c_wa_id (contacts db))
     \<and> distinct (map m_wa_message_id (messages db))
     \<and> distinct (map cv_wa_conversation_id (conversations db))"

text \<open>
  A call that has read a row, or has returned, has its address in the table; this is what
  every step and every statement keeps.
\<close>

definition settled :: "Call \<Rightarrow> D1Database \<Rightarrow> bool" where
  "settled c db \<longleftrightarrow>
     (stage c = Start \<or> stage c = Absent \<or> call_waId c \<in> set (map c_wa_id (contacts db)))"

definition returned :: "Call \<Rightarrow> bool" where
  "returned c \<longleftrightarrow> (case stage c of Returned r \<Rightarrow> True | other \<Rightarrow> False)"

section \<open>Scenarios\<close>

text \<open>The inputs of the closed theorems: the scenarios of the specification.\<close>

definition blank_message :: IncomingMessage where
  "blank_message =
     \<lparr>msg_from = ''1555'', msg_id = ''wamid.A'', msg_timestamp = ''1700000000'',
      msg_type = ''text'', msg_text = None, msg_image = None, msg_video = None,
      msg_audio = None, msg_document = None, msg_sticker = None, msg_location = None,
      msg_contacts = None, msg_interactive = None, msg_button = None, msg_context = None,
      msg_referral = None,
      msg_properties = [(''from'', JString ''1555''), (''id'', JString ''wamid.A''),
                        (''timestamp'', JString ''1700000000''), (''type'', JString ''text'')]\<rparr>"

definition message_A :: IncomingMessage where
  "message_A =
     blank_message\<lparr>msg_text := Some \<lparr>body = ''hi''\<rparr>,
       msg_properties := [(''from'', JString ''1555''), (''id'', JString ''wamid.A''),
                          (''timestamp'', JString ''1700000000''),
                          (''text'', JObject [(''body'', JString ''hi'')]),
                          (''type'', JString ''text'')]\<rparr>"

definition message_A' :: IncomingMessage where
  "message_A' =
     blank_message\<lparr>msg_text := Some \<lparr>body = ''hello again''\<rparr>,
       msg_properties := [(''from'', JString ''1555''), (''id'', JString ''wamid.A''),
                          (''timestamp'', JString ''1700000000''),
                          (''text'', JObject [(''body'', JString ''hello again'')]),
                          (''type'', JString ''text'')]\<rparr>"

definition message_B :: IncomingMessage where
  "message_B =
     blank_message\<lparr>msg_id := ''wamid.B'', msg_type := ''location'',
       msg_location := Some \<lparr>loc_latitude = 0, loc_longitude = 2, loc_name = None,
                               loc_address = None\<rparr>,
       msg_properties := [(''from'', JString ''1555''), (''id'', JString ''wamid.B''),
                          (''timestamp'', JString ''1700000000''),
                          (''location'', JObject [(''latitude'', JNumber 0),
                                                  (''longitude'', JNumber 2)]),
                          (''type'', JString ''location'')]\<rparr>"

text \<open>
  A reaction, a kind the switch does not handle, as the platform sends it: the
  \<^verbatim>\<open>reaction\<close> property, which the interface does not have, stands before
  \<^verbatim>\<open>type\<close>. The emoji is the thumbs-up sign in UTF-8.
\<close>

definition object_R :: "(string \<times> json) list" where
  "object_R =
     [(''from'', JString ''1555''), (''id'', JString ''wamid.R''),
      (''timestamp'', JString ''1700000000''),
      (''reaction'', JObject [(''message_id'', JString ''wamid.A''),
                              (''emoji'', JString [CHR 0xF0, CHR 0x9F, CHR 0x91, CHR 0x8D])]),
      (''type'', JString ''reaction'')]"

definition message_R :: IncomingMessage where
  "message_R =
     blank_message\<lparr>msg_id := ''wamid.R'', msg_type := ''reaction'',
                   msg_properties := object_R\<rparr>"

text \<open>The same properties, \<^verbatim>\<open>type\<close> before \<^verbatim>\<open>reaction\<close>.\<close>

definition object_R' :: "(string \<times> json) list" where
  "object_R' =
     [(''from'', JString ''1555''), (''id'', JString ''wamid.R''),
      (''timestamp'', JString ''1700000000''), (''type'', JString ''reaction''),
      (''reaction'', JObject [(''message_id'', JString ''wamid.A''),
                              (''emoji'', JString [CHR 0xF0, CHR 0x9F, CHR 0x91, CHR 0x8D])])]"

text \<open>
  An order, another kind the switch does not handle, with numbers in an array; and the
  same order with the two numbers exchanged.
\<close>

definition object_O :: "(string \<times> json) list" where
  "object_O =
     [(''from'', JString ''1555''), (''id'', JString ''wamid.O''),
      (''order'', JObject [(''catalog_id'', JString ''c1''),
                           (''product_items'',
                              JArray [JObject [(''product_retailer_id'', JString ''p1''),
                                               (''quantity'', JNumber 2),
                                               (''item_price'', JNumber 5),
                                               (''currency'', JString ''USD'')]])]),
      (''timestamp'', JString ''1700000000''), (''type'', JString ''order'')]"

definition message_O :: IncomingMessage where
  "message_O =
     blank_message\<lparr>msg_id := ''wamid.O'', msg_type := ''order'', msg_properties := object_O\<rparr>"

definition object_O' :: "(string \<times> json) list" where
  "object_O' =
     [(''from'', JString ''1555''), (''id'', JString ''wamid.O''),
      (''order'', JObject [(''catalog_id'', JString ''c1''),
                           (''product_items'',
                              JArray [JObject [(''product_retailer_id'', JString ''p1''),
                                               (''quantity'', JNumber 5),
                                               (''item_price'', JNumber 2),
                                               (''currency'', JString ''USD'')]])]),
      (''timestamp'', JString ''1700000000''), (''type'', JString ''order'')]"

text \<open>A number printer for the closed theorems, in which no number is ever printed.\<close>

definition no_number :: "number \<Rightarrow> string" where
  "no_number n = []"

text \<open>
  A number printer for the closed theorems in which numbers are printed: it writes the
  integers from 0 to 9 as \<^verbatim>\<open>Number.prototype.toString\<close> does, and these are the only
  numbers printed there.
\<close>

definition digit_printer :: "number \<Rightarrow> string" where
  "digit_printer n =
     (if n = 0 then ''0'' else if n = 1 then ''1'' else if n = 2 then ''2''
      else if n = 3 then ''3'' else if n = 4 then ''4'' else if n = 5 then ''5''
      else if n = 6 then ''6'' else if n = 7 then ''7'' else if n = 8 then ''8''
      else if n = 9 then ''9'' else [])"

definition db_A :: D1Database where
  "db_A = snd (saveIncomingMessage no_number ''2023-11-14 22:13:21'' message_A None empty_db)"

definition blank_status :: MessageStatus where
  "blank_status =
     \<lparr>st_id = ''wamid.A'', st_status = delivered, st_timestamp = ''1700000000'',
      recipient_id = ''1555'', st_conversation = None, st_pricing = None, st_errors = None\<rparr>"

definition status_ZZZ :: MessageStatus where
  "status_ZZZ = blank_status\<lparr>st_id := ''wamid.ZZZ''\<rparr>"

definition window_1 :: Conversation where
  "window_1 =
     \<lparr>conv_id = ''conv.1'', origin = \<lparr>origin_type = user_initiated\<rparr>,
      expiration_timestamp = Some ''1700086400''\<rparr>"

definition status_sent :: MessageStatus where
  "status_sent = blank_status\<lparr>st_status := sent, st_conversation := Some window_1\<rparr>"

definition status_read :: MessageStatus where
  "status_read = blank_status\<lparr>st_status := read, st_conversation := Some window_1\<rparr>"

definition value_1 :: WebhookValue where
  "value_1 =
     \<lparr>messaging_product = ''whatsapp'',
      metadata = \<lparr>display_phone_number = ''15550000'', phone_number_id = ''1''\<rparr>,
      wv_contacts = Some [\<lparr>profile = \<lparr>profile_name = ''Ann''\<rparr>, wc_wa_id = ''1555''\<rparr>],
      wv_messages = Some [message_A, message_A', message_B],
      wv_statuses = Some [status_ZZZ, status_sent],
      wv_errors = None\<rparr>"

definition payload_1 :: WebhookPayload where
  "payload_1 =
     \<lparr>object = ''whatsapp_business_account'',
      entry = [\<lparr>entry_id = ''e1'',
                 changes = [\<lparr>change_value = value_1, field = ''messages''\<rparr>,
                            \<lparr>change_value = value_1, field = ''account_update''\<rparr>]\<rparr>,
               \<lparr>entry_id = ''e2'',
                 changes = [\<lparr>change_value = value_1\<lparr>wv_messages := Some [message_R],
                                                          wv_statuses := None\<rparr>,
                             field = ''messages''\<rparr>]\<rparr>]\<rparr>"

definition payload_bad :: WebhookPayload where
  "payload_bad = payload_1\<lparr>object := ''page''\<rparr>"

text \<open>A store that is down: both methods throw and write nothing.\<close>

definition unavailable_service :: "unit DatabaseService" where
  "unavailable_service =
     \<lparr>svc_saveIncomingMessage = (\<lambda>m c store. (Inl (D1_ERROR ''D1 is unavailable''), store)),
      svc_updateMessageStatus = (\<lambda>s store. (Inl (D1_ERROR ''D1 is unavailable''), store))\<rparr>"

definition db_Ann :: D1Database where
  "db_Ann = snd (findOrCreateContact ''2023-11-14 22:13:20'' ''1555'' (Some ''Ann'') empty_db)"

definition world_0 :: "D1Database World" where
  "world_0 = \<lparr>console = [], DB = empty_db\<rparr>"

text \<open>Two calls of \<^verbatim>\<open>findOrCreateContact\<close> for one new address, about to start.\<close>

definition call_1 :: Call where
  "call_1 = \<lparr>call_now = ''2023-11-14 22:13:21'', call_waId = ''1555'',
             call_name = Some ''Ann'', stage = Start\<rparr>"

definition call_2 :: Call where
  "call_2 = \<lparr>call_now = ''2023-11-14 22:13:22'', call_waId = ''1555'',
             call_name = None, stage = Start\<rparr>"

section \<open>Lemmas about \<^verbatim>\<open>JSON.stringify\<close>: the text determines the value\<close>

lemma hexDigit_inj:
  assumes "0 \<le> a" "a < 16" "0 \<le> b" "b < 16" "hexDigit a = hexDigit b"
  shows "a = b"
proof -
  have d: "distinct ''0123456789abcdef''"
    by simp
  have "nat a < length ''0123456789abcdef''" "nat b < length ''0123456789abcdef''"
    using assms by simp_all
  from nth_eq_iff_index_eq [OF d this] assms show ?thesis
    by (simp add: hexDigit_def)
qed

lemma of_char_bounds: "0 \<le> (of_char c :: int)" "(of_char c :: int) < 256"
proof -
  have "(of_char c :: int) = int (of_char c)"
    by (simp add: of_char_def)
  moreover have "(of_char c :: nat) < 256"
    by (rule nat_of_char_less_256)
  ultimately show "0 \<le> (of_char c :: int)" "(of_char c :: int) < 256"
    by simp_all
qed

lemma char_code:
  "(a = CHR 0x22) = (of_char a = (34::int))" "(a = CHR 0x5C) = (of_char a = (92::int))"
  by (subst of_char_eq_iff [symmetric, where 'a=int], simp)+

lemma QuoteChar_prefix_code:
  assumes "QuoteChar c @ X = QuoteChar d @ Y"
  shows "c = d \<and> X = Y"
proof -
  define hv where "hv h = (THE a. 0 \<le> a \<and> a < 16 \<and> hexDigit a = h)" for h
  have hv: "hv (hexDigit a) = a" if "0 \<le> a" "a < 16" for a
    unfolding hv_def using that by (intro the_equality) (auto dest: hexDigit_inj)
  define rd :: "string \<Rightarrow> int \<times> string" where
    "rd xs = (case xs of [] \<Rightarrow> (0, [])
              | x # r \<Rightarrow>
                  if x \<noteq> CHR 0x5C then (of_char x, r)
                  else (case r of [] \<Rightarrow> (0, [])
                        | k # t \<Rightarrow>
                            if k = CHR 0x22 then (34, t)
                            else if k = CHR 0x5C then (92, t)
                            else if k = CHR ''b'' then (8, t)
                            else if k = CHR ''t'' then (9, t)
                            else if k = CHR ''n'' then (10, t)
                            else if k = CHR ''f'' then (12, t)
                            else if k = CHR ''r'' then (13, t)
                            else (16 * hv (t ! 2) + hv (t ! 3), drop 4 t)))" for xs
  have rd: "rd (QuoteChar a @ Z) = (of_char a, Z)" for a Z
  proof -
    let ?n = "of_char a :: int"
    have "hv (hexDigit (?n div 16)) = ?n div 16" if "?n < 32"
      using that of_char_bounds(1) [of a] by (intro hv) auto
    moreover have "hv (hexDigit (?n mod 16)) = ?n mod 16"
      by (intro hv) auto
    ultimately show ?thesis
      unfolding QuoteChar_def Let_def rd_def
      by (simp add: char_code)
  qed
  from assms have "rd (QuoteChar c @ X) = rd (QuoteChar d @ Y)"
    by simp
  then show ?thesis
    by (simp add: rd)
qed

lemma QuoteChar_hd: "\<exists>e es. QuoteChar c = e # es \<and> e \<noteq> CHR 0x22"
  unfolding QuoteChar_def Let_def by simp

lemma quoted_unique:
  "concat (map QuoteChar s) @ CHR 0x22 # X = concat (map QuoteChar t) @ CHR 0x22 # Y
     \<Longrightarrow> s = t \<and> X = Y"
proof (induction s arbitrary: t)
  case Nil
  show ?case
  proof (cases t)
    case Nil
    with Nil.prems show ?thesis by simp
  next
    case (Cons d t')
    obtain e es where "QuoteChar d = e # es" "e \<noteq> CHR 0x22"
      using QuoteChar_hd by blast
    with Nil.prems Cons show ?thesis by simp
  qed
next
  case (Cons c s')
  show ?case
  proof (cases t)
    case Nil
    obtain e es where "QuoteChar c = e # es" "e \<noteq> CHR 0x22"
      using QuoteChar_hd by blast
    with Cons.prems Nil show ?thesis by simp
  next
    case (Cons d t')
    with Cons.prems have
      "QuoteChar c @ (concat (map QuoteChar s') @ CHR 0x22 # X)
         = QuoteChar d @ (concat (map QuoteChar t') @ CHR 0x22 # Y)"
      by simp
    from QuoteChar_prefix_code [OF this] Cons.IH [of t'] Cons show ?thesis
      by simp
  qed
qed

lemma QuoteJSONString_unique:
  "QuoteJSONString s @ X = QuoteJSONString t @ Y \<Longrightarrow> s = t \<and> X = Y"
  using quoted_unique [of s X t Y] by (simp add: QuoteJSONString_def)

lemma digits_unique:
  assumes "xs @ r = ys @ r'" "set xs \<subseteq> A" "set ys \<subseteq> A"
    and "r = [] \<or> hd r \<notin> A" "r' = [] \<or> hd r' \<notin> A"
  shows "xs = ys \<and> r = r'"
proof -
  from assms(1) consider us where "xs = ys @ us" "us @ r = r'" | us where "xs @ us = ys" "r = us @ r'"
    by (auto simp: append_eq_append_conv2)
  then show ?thesis
  proof cases
    case 1
    have "us = []"
    proof (rule ccontr)
      assume "us \<noteq> []"
      then have "r' \<noteq> []" "hd r' = hd us" "hd us \<in> set xs"
        using 1 by auto
      with assms(2,5) show False by auto
    qed
    with 1 show ?thesis by simp
  next
    case 2
    have "us = []"
    proof (rule ccontr)
      assume "us \<noteq> []"
      then have "r \<noteq> []" "hd r = hd us" "hd us \<in> set ys"
        using 2 by auto
      with assms(3,4) show False by auto
    qed
    with 2 show ?thesis by simp
  qed
qed

lemma commas_Cons:
  "commas (a # as) @ z = a @ (if as = [] then z else '','' @ commas as @ z)"
  by (cases as) simp_all

lemma commas_unique:
  assumes "\<And>x y r r'. \<lbrakk>x \<in> set xs; y \<in> set ys; f x @ r = f y @ r';
              r = [] \<or> hd r \<in> set '',]}''; r' = [] \<or> hd r' \<in> set '',]}''\<rbrakk> \<Longrightarrow> x = y \<and> r = r'"
    and "\<And>x. x \<in> set xs \<Longrightarrow> f x \<noteq> [] \<and> hd (f x) \<noteq> close"
    and "\<And>y. y \<in> set ys \<Longrightarrow> f y \<noteq> [] \<and> hd (f y) \<noteq> close"
    and "close \<in> set '']}''"
    and "commas (map f xs) @ close # r = commas (map f ys) @ close # r'"
  shows "xs = ys \<and> r = r'"
  using assms
proof (induction xs arbitrary: ys)
  case Nil
  show ?case
  proof (cases ys)
    case Nil
    with Nil.prems(5) show ?thesis by simp
  next
    case (Cons y ys')
    with Nil.prems(3) [of y] have "f y \<noteq> []" "hd (f y) \<noteq> close"
      by simp_all
    moreover from Nil.prems(5) Cons have "close # r = f y @ (if ys' = [] then close # r'
        else '','' @ commas (map f ys') @ close # r')"
      by (simp add: commas_Cons)
    ultimately show ?thesis
      by (cases "f y") auto
  qed
next
  case (Cons x xs')
  show ?case
  proof (cases ys)
    case Nil
    from Cons.prems(2) [of x] have "f x \<noteq> []" "hd (f x) \<noteq> close"
      by simp_all
    moreover from Cons.prems(5) Nil have "f x @ (if xs' = [] then close # r
        else '','' @ commas (map f xs') @ close # r) = close # r'"
      by (simp add: commas_Cons)
    ultimately show ?thesis
      by (cases "f x") auto
  next
    case ys: (Cons y ys')
    let ?R = "if xs' = [] then close # r else '','' @ commas (map f xs') @ close # r"
    let ?R' = "if ys' = [] then close # r' else '','' @ commas (map f ys') @ close # r'"
    from Cons.prems(5) ys have eq: "f x @ ?R = f y @ ?R'"
      by (simp add: commas_Cons)
    have "?R = [] \<or> hd ?R \<in> set '',]}''" "?R' = [] \<or> hd ?R' \<in> set '',]}''"
      using Cons.prems(4) by auto
    from Cons.prems(1) [OF _ _ eq this] ys have xy: "x = y" and R: "?R = ?R'"
      by simp_all
    show ?thesis
    proof (cases "xs' = []")
      case True
      with R Cons.prems(4) have "ys' = []" "r = r'"
        by (auto split: if_splits)
      with True xy ys show ?thesis by simp
    next
      case False
      with R Cons.prems(4) have ne: "ys' \<noteq> []"
        and eq': "commas (map f xs') @ close # r = commas (map f ys') @ close # r'"
        by (auto split: if_splits)
      have "xs' = ys' \<and> r = r'"
      proof (rule Cons.IH [OF _ _ _ Cons.prems(4) eq'])
        show "x0 = y0 \<and> ra = rb"
          if "x0 \<in> set xs'" "y0 \<in> set ys'" "f x0 @ ra = f y0 @ rb"
            "ra = [] \<or> hd ra \<in> set '',]}''" "rb = [] \<or> hd rb \<in> set '',]}''"
          for x0 y0 ra rb
          using that ys by (intro Cons.prems(1)) simp_all
        show "\<And>x. x \<in> set xs' \<Longrightarrow> f x \<noteq> [] \<and> hd (f x) \<noteq> close"
          using Cons.prems(2) by simp
        show "\<And>y. y \<in> set ys' \<Longrightarrow> f y \<noteq> [] \<and> hd (f y) \<noteq> close"
          using Cons.prems(3) ys by simp
      qed
      with xy ys show ?thesis by simp
    qed
  qed
qed

lemma JSON_stringify_hd:
  assumes "number_printer num D" "numbers v \<subseteq> D"
  shows "\<exists>c cs. JSON_stringify num v = c # cs \<and> c \<notin> set '',]}''
           \<and> (case v of JNull \<Rightarrow> c = CHR ''n''
               | JBool b \<Rightarrow> c = CHR ''t'' \<or> c = CHR ''f''
               | JNumber n \<Rightarrow> c \<in> set ''0123456789+-.e''
               | JString s \<Rightarrow> c = CHR 0x22
               | JArray xs \<Rightarrow> c = CHR ''[''
               | JObject ps \<Rightarrow> c = CHR ''{'')"
proof (cases v)
  case (JNumber n)
  with assms have "num n \<noteq> []" "set (num n) \<subseteq> set ''0123456789+-.e''"
    by (simp_all add: number_printer_def)
  then obtain c cs where "num n = c # cs" "c \<in> set ''0123456789+-.e''"
    by (cases "num n") auto
  with JNumber show ?thesis
    by auto
qed (simp_all add: QuoteJSONString_def)

lemma JSON_stringify_kind:
  assumes np: "number_printer num D" and "numbers u \<subseteq> D" "numbers v \<subseteq> D"
    and eq: "JSON_stringify num u @ r = JSON_stringify num v @ r'"
  shows "(case u of JNull \<Rightarrow> 0 | JBool b \<Rightarrow> 1 | JNumber n \<Rightarrow> 2 | JString s \<Rightarrow> 3
          | JArray xs \<Rightarrow> 4 | JObject ps \<Rightarrow> (5::nat))
       = (case v of JNull \<Rightarrow> 0 | JBool b \<Rightarrow> 1 | JNumber n \<Rightarrow> 2 | JString s \<Rightarrow> 3
          | JArray xs \<Rightarrow> 4 | JObject ps \<Rightarrow> 5)"
proof -
  from JSON_stringify_hd [OF np assms(2)] obtain c cs where
    u: "JSON_stringify num u = c # cs"
       "case u of JNull \<Rightarrow> c = CHR ''n''
               | JBool b \<Rightarrow> c = CHR ''t'' \<or> c = CHR ''f''
               | JNumber n \<Rightarrow> c \<in> set ''0123456789+-.e''
               | JString s \<Rightarrow> c = CHR 0x22
               | JArray xs \<Rightarrow> c = CHR ''[''
               | JObject ps \<Rightarrow> c = CHR ''{''"
    by blast
  from JSON_stringify_hd [OF np assms(3)] obtain c' cs' where
    v: "JSON_stringify num v = c' # cs'"
       "case v of JNull \<Rightarrow> c' = CHR ''n''
               | JBool b \<Rightarrow> c' = CHR ''t'' \<or> c' = CHR ''f''
               | JNumber n \<Rightarrow> c' \<in> set ''0123456789+-.e''
               | JString s \<Rightarrow> c' = CHR 0x22
               | JArray xs \<Rightarrow> c' = CHR ''[''
               | JObject ps \<Rightarrow> c' = CHR ''{''"
    by blast
  from eq have "c = c'"
    unfolding u(1) v(1) by simp
  with u(2) v(2) show ?thesis
    by (cases u; cases v) auto
qed

lemma JSON_stringify_unique:
  assumes np: "number_printer num D"
  shows "\<lbrakk>numbers u \<subseteq> D; numbers v \<subseteq> D;
          JSON_stringify num u @ r = JSON_stringify num v @ r';
          r = [] \<or> hd r \<in> set '',]}''; r' = [] \<or> hd r' \<in> set '',]}''\<rbrakk>
         \<Longrightarrow> u = v \<and> r = r'"
proof (induction u arbitrary: v r r')
  case JNull
  from JSON_stringify_kind [OF np JNull.prems(1,2,3)] JNull.prems(3) show ?case
    by (cases v) simp_all
next
  case (JBool b)
  from JSON_stringify_kind [OF np JBool.prems(1,2,3)] JBool.prems(3) show ?case
    by (cases v) (simp_all split: if_splits)
next
  case (JNumber n)
  show ?case
  proof (cases v)
    case v: (JNumber m)
    let ?A = "set ''0123456789+-.e''"
    from JNumber.prems(1,2) v have D: "n \<in> D" "m \<in> D"
      by simp_all
    with np have "set (num n) \<subseteq> ?A" "set (num m) \<subseteq> ?A"
      by (simp_all add: number_printer_def)
    moreover have "r = [] \<or> hd r \<notin> ?A" "r' = [] \<or> hd r' \<notin> ?A"
      using JNumber.prems(4,5) by auto
    moreover have "num n @ r = num m @ r'"
      using JNumber.prems(3) v by simp
    ultimately have "num n = num m \<and> r = r'"
      by (intro digits_unique)
    with np D v show ?thesis
      by (auto simp: number_printer_def dest: inj_onD)
  qed (use JSON_stringify_kind [OF np JNumber.prems(1,2,3)] in simp_all)
next
  case (JString s)
  show ?case
  proof (cases v)
    case v: (JString t)
    with JString.prems(3) QuoteJSONString_unique [of s r t r'] show ?thesis
      by simp
  qed (use JSON_stringify_kind [OF np JString.prems(1,2,3)] in simp_all)
next
  case (JArray xs)
  show ?case
  proof (cases v)
    case v: (JArray ys)
    have "xs = ys \<and> r = r'"
    proof (rule commas_unique [where f = "JSON_stringify num" and close = "CHR '']''"])
      show "x = y \<and> ra = rb"
        if "x \<in> set xs" "y \<in> set ys" "JSON_stringify num x @ ra = JSON_stringify num y @ rb"
          "ra = [] \<or> hd ra \<in> set '',]}''" "rb = [] \<or> hd rb \<in> set '',]}''" for x y ra rb
      proof (rule JArray.IH [OF that(1) _ _ that(3,4,5)])
        show "numbers x \<subseteq> D" using JArray.prems(1) that(1) by auto
        show "numbers y \<subseteq> D" using JArray.prems(2) that(2) v by auto
      qed
      show "JSON_stringify num x \<noteq> [] \<and> hd (JSON_stringify num x) \<noteq> CHR '']''"
        if "x \<in> set xs" for x
      proof -
        have "numbers x \<subseteq> D" using JArray.prems(1) that by auto
        from JSON_stringify_hd [OF np this] show ?thesis by auto
      qed
      show "JSON_stringify num y \<noteq> [] \<and> hd (JSON_stringify num y) \<noteq> CHR '']''"
        if "y \<in> set ys" for y
      proof -
        have "numbers y \<subseteq> D" using JArray.prems(2) that v by auto
        from JSON_stringify_hd [OF np this] show ?thesis by auto
      qed
      show "CHR '']'' \<in> set '']}''" by simp
      show "commas (map (JSON_stringify num) xs) @ CHR '']'' # r
              = commas (map (JSON_stringify num) ys) @ CHR '']'' # r'"
        using JArray.prems(3) v by simp
    qed
    with v show ?thesis by simp
  qed (use JSON_stringify_kind [OF np JArray.prems(1,2,3)] in simp_all)
next
  case (JObject ps)
  show ?case
  proof (cases v)
    case v: (JObject qs)
    let ?f = "\<lambda>(k, v). QuoteJSONString k @ '':'' @ JSON_stringify num v"
    have "ps = qs \<and> r = r'"
    proof (rule commas_unique [where f = ?f and close = "CHR ''}''"])
      show "p = q \<and> ra = rb"
        if "p \<in> set ps" "q \<in> set qs" "?f p @ ra = ?f q @ rb"
          "ra = [] \<or> hd ra \<in> set '',]}''" "rb = [] \<or> hd rb \<in> set '',]}''" for p q ra rb
      proof -
        obtain k a k' b where pq: "p = (k, a)" "q = (k', b)"
          by (cases p, cases q) auto
        with that(3) have "QuoteJSONString k @ (CHR '':'' # JSON_stringify num a @ ra)
            = QuoteJSONString k' @ (CHR '':'' # JSON_stringify num b @ rb)"
          by simp
        from QuoteJSONString_unique [OF this]
        have k: "k = k'" and eq: "JSON_stringify num a @ ra = JSON_stringify num b @ rb"
          by simp_all
        have "a = b \<and> ra = rb"
        proof (rule JObject.IH [OF that(1) _ _ _ eq that(4,5)])
          show "a \<in> Basic_BNFs.snds p" using pq by simp
          show "numbers a \<subseteq> D" using JObject.prems(1) that(1) pq by auto
          show "numbers b \<subseteq> D" using JObject.prems(2) that(2) pq v by auto
        qed
        with k pq show ?thesis by simp
      qed
      show "?f p \<noteq> [] \<and> hd (?f p) \<noteq> CHR ''}''" if "p \<in> set ps" for p
        by (cases p) (simp add: QuoteJSONString_def)
      show "?f q \<noteq> [] \<and> hd (?f q) \<noteq> CHR ''}''" if "q \<in> set qs" for q
        by (cases q) (simp add: QuoteJSONString_def)
      show "CHR ''}'' \<in> set '']}''" by simp
      show "commas (map ?f ps) @ CHR ''}'' # r = commas (map ?f qs) @ CHR ''}'' # r'"
        using JObject.prems(3) v by simp
    qed
    with v show ?thesis by simp
  qed (use JSON_stringify_kind [OF np JObject.prems(1,2,3)] in simp_all)
qed

lemma JSON_stringify_inj:
  assumes "number_printer num D" "numbers u \<subseteq> D" "numbers v \<subseteq> D"
    and "JSON_stringify num u = JSON_stringify num v"
  shows "u = v"
  using JSON_stringify_unique [OF assms(1,2,3), of "[]" "[]"] assms(4) by simp

subsection \<open>The typed view of a parsed message\<close>

lemma IncomingMessage_of_json_properties:
  assumes "IncomingMessage_of_json (JObject obj) = Some message"
  shows "msg_properties message = obj"
    and "map_of obj ''type'' = Some (JString (msg_type message))"
    and "map_of obj ''id'' = Some (JString (msg_id message))"
  using assms
  by (auto simp: IncomingMessage_of_json_def properties_def required_def a_string_def
        bind_eq_Some_conv split: if_splits option.splits json.splits)

lemma scenario_messages_conform:
  "IncomingMessage_of_json (JObject (msg_properties message_A)) = Some message_A"
  "IncomingMessage_of_json (JObject (msg_properties message_A')) = Some message_A'"
  "IncomingMessage_of_json (JObject (msg_properties message_B)) = Some message_B"
  "IncomingMessage_of_json (JObject (msg_properties message_R)) = Some message_R"
  "IncomingMessage_of_json (JObject (msg_properties message_O)) = Some message_O"
  by code_simp+

section \<open>Lemmas about the statements and the methods\<close>

lemma statusText_allowed:
  "statusText s \<in> set [''received'', ''sent'', ''delivered'', ''read'', ''failed'']"
  by (cases s) simp_all

lemma interactiveText_allowed:
  "interactiveText t \<in> set [''button_reply'', ''list_reply'']"
  by (cases t) simp_all

lemma update_message_status_statusText:
  "update_message_status (statusText s) i db =
     (Inr (), db\<lparr>messages := map (\<lambda>m. if m_wa_message_id m = i then m\<lparr>m_status := statusText s\<rparr> else m) (messages db)\<rparr>)"
  using statusText_allowed [of s] by (simp add: update_message_status_def)

lemma select_contact_Some:
  "select_contact w db = Some c \<Longrightarrow> c \<in> set (contacts db) \<and> c_wa_id c = w"
  by (auto simp: select_contact_def find_Some_iff)

lemma select_contact_None:
  "select_contact w db = None \<longleftrightarrow> (\<forall>c \<in> set (contacts db). c_wa_id c \<noteq> w)"
  by (auto simp: select_contact_def find_None_iff)

lemma findOrCreateContact_existing:
  "select_contact w db = Some existing \<Longrightarrow>
   findOrCreateContact now w name db =
     (Inr (existing\<lparr>c_name := (case or_null name of Some n \<Rightarrow> Some n | None \<Rightarrow> c_name existing)\<rparr>),
      update_contact now (or_null name) w db)"
  by (simp add: findOrCreateContact_def)

lemma findOrCreateContact_new:
  assumes "select_contact w db = None"
  shows "findOrCreateContact now w name db =
     (let row = \<lparr>c_id = rowid (seq_contacts db) (map c_id (contacts db)), c_wa_id = w,
                 c_name = or_null name, c_phone_number = Some w, c_first_seen_at = now,
                 c_last_message_at = now, c_created_at = now, c_updated_at = now\<rparr>
      in (Inr row, db\<lparr>contacts := contacts db @ [row], seq_contacts := c_id row\<rparr>))"
proof -
  from assms have "\<not> (\<exists>c \<in> set (contacts db). c_wa_id c = w)"
    by (simp add: select_contact_None)
  with assms show ?thesis
    by (simp add: findOrCreateContact_def insert_contact_def)
qed

lemma findOrCreateContact_frame:
  "messages (snd (findOrCreateContact now w name db)) = messages db"
  "message_statuses (snd (findOrCreateContact now w name db)) = message_statuses db"
  "conversations (snd (findOrCreateContact now w name db)) = conversations db"
  "interactive_responses (snd (findOrCreateContact now w name db)) = interactive_responses db"
  "seq_messages (snd (findOrCreateContact now w name db)) = seq_messages db"
  "seq_message_statuses (snd (findOrCreateContact now w name db)) = seq_message_statuses db"
  "seq_conversations (snd (findOrCreateContact now w name db)) = seq_conversations db"
  "seq_interactive_responses (snd (findOrCreateContact now w name db)) = seq_interactive_responses db"
  by (cases "select_contact w db";
      simp add: findOrCreateContact_existing findOrCreateContact_new update_contact_def Let_def)+

lemma findOrCreateContact_result:
  "\<exists>c. fst (findOrCreateContact now w name db) = Inr c
       \<and> c_id c \<in> set (map c_id (contacts (snd (findOrCreateContact now w name db))))
       \<and> c_wa_id c = w"
proof (cases "select_contact w db")
  case None
  then show ?thesis
    by (simp add: findOrCreateContact_new Let_def)
next
  case (Some existing)
  then have "existing \<in> set (contacts db)" "c_wa_id existing = w"
    using select_contact_Some by blast+
  then show ?thesis
    using Some by (force simp: findOrCreateContact_existing update_contact_def image_iff)
qed

lemma findOrCreateContact_obtain:
  obtains c db1 where
    "findOrCreateContact now w name db = (Inr c, db1)"
    "c_id c \<in> set (map c_id (contacts db1))"
    "messages db1 = messages db"
    "interactive_responses db1 = interactive_responses db"
    "seq_messages db1 = seq_messages db"
proof -
  obtain c where c: "fst (findOrCreateContact now w name db) = Inr c"
      "c_id c \<in> set (map c_id (contacts (snd (findOrCreateContact now w name db))))"
    using findOrCreateContact_result by blast
  show thesis
  proof (rule that [of c "snd (findOrCreateContact now w name db)"])
    show "findOrCreateContact now w name db = (Inr c, snd (findOrCreateContact now w name db))"
      using c(1) by (metis prod.collapse)
  qed (use c(2) in \<open>simp_all add: findOrCreateContact_frame\<close>)
qed

lemma insert_interactive_response_ok:
  assumes "i \<in> set (map m_id (messages db))"
    and "ty = ''button_reply'' \<or> ty = ''list_reply''"
  shows "\<exists>db'. insert_interactive_response now i ty rid title d db = (Inr (), db')
            \<and> messages db' = messages db \<and> contacts db' = contacts db"
  using assms by (auto simp: insert_interactive_response_def Let_def)

lemma interactiveText_cases:
  "interactiveText t = ''button_reply'' \<or> interactiveText t = ''list_reply''"
  by (cases t) simp_all

lemma saveInteractiveResponse_ok:
  assumes "m_id result \<in> set (map m_id (messages db))"
  shows "\<exists>db'. saveInteractiveResponse now message result db = (Inr (), db')
            \<and> messages db' = messages db \<and> contacts db' = contacts db"
proof -
  note ok = insert_interactive_response_ok [OF assms interactiveText_cases]
  show ?thesis
    unfolding saveInteractiveResponse_def Let_def
    by (simp split: option.splits add: ok del: interactiveText.simps)
qed

lemma saveIncomingMessage_duplicate:
  assumes "\<exists>m \<in> set (messages db). m_wa_message_id m = msg_id message"
  shows "isl (fst (saveIncomingMessage num now message contact db))"
    and "messages (snd (saveIncomingMessage num now message contact db)) = messages db"
    and "interactive_responses (snd (saveIncomingMessage num now message contact db))
           = interactive_responses db"
proof -
  obtain c db1 where foc:
      "findOrCreateContact now (msg_from message)
         (map_option (\<lambda>c. profile_name (profile c)) contact) db = (Inr c, db1)"
      "messages db1 = messages db" "interactive_responses db1 = interactive_responses db"
    using findOrCreateContact_obtain by metis
  have dup: "\<exists>m \<in> set (messages db1). m_wa_message_id m = msg_id message"
    using assms foc(2) by simp
  show "isl (fst (saveIncomingMessage num now message contact db))"
    using foc(1) dup
    by (simp add: saveIncomingMessage_def insert_message_def Let_def split: sum.splits)
  show "messages (snd (saveIncomingMessage num now message contact db)) = messages db"
    using foc(1,2) dup
    by (simp add: saveIncomingMessage_def insert_message_def Let_def split: sum.splits)
  show "interactive_responses (snd (saveIncomingMessage num now message contact db))
           = interactive_responses db"
    using foc(1,3) dup
    by (simp add: saveIncomingMessage_def insert_message_def Let_def split: sum.splits)
qed

lemma saveIncomingMessage_stores:
  assumes ts: "epochToISO (msg_timestamp message) = Inr stamp"
    and fresh: "\<forall>m \<in> set (messages db). m_wa_message_id m \<noteq> msg_id message"
    and ct: "bind_text (content (extractContent num message)) = Inr ct"
  shows "\<exists>row db'. saveIncomingMessage num now message contact db = (Inr row, db')
           \<and> messages db' = messages db @ [row]
           \<and> m_wa_message_id row = msg_id message
           \<and> m_direction row = ''incoming''
           \<and> m_type row = msg_type message
           \<and> m_content row = ct
           \<and> m_latitude row = latitude (extractContent num message)
           \<and> m_longitude row = longitude (extractContent num message)
           \<and> m_status row = ''received''
           \<and> m_timestamp row = stamp"
proof -
  obtain c db1 where foc:
      "findOrCreateContact now (msg_from message)
         (map_option (\<lambda>c. profile_name (profile c)) contact) db = (Inr c, db1)"
      "c_id c \<in> set (map c_id (contacts db1))"
      "messages db1 = messages db"
    using findOrCreateContact_obtain by metis
  define x where "x = extractContent num message"
  define cols where "cols =
     \<lparr>m_id = 0, m_wa_message_id = msg_id message, m_contact_id = c_id c,
      m_direction = ''incoming'', m_type = msg_type message, m_content = ct,
      m_media_id = mediaId x, m_media_url = None, m_media_mime_type = mediaMimeType x,
      m_media_filename = mediaFilename x, m_caption = caption x, m_latitude = latitude x,
      m_longitude = longitude x, m_location_name = locationName x,
      m_location_address = locationAddress x,
      m_reply_to_message_id = or_null (map_option ctx_id (msg_context message)),
      m_status = ''received'', m_timestamp = stamp, m_created_at = now\<rparr>"
  define row where "row = cols\<lparr>m_id := rowid (seq_messages db1) (map m_id (messages db1)),
                               m_created_at := now\<rparr>"
  define db2 where "db2 = db1\<lparr>messages := messages db1 @ [row], seq_messages := m_id row\<rparr>"
  have ins: "insert_message now cols db1 = (Inr row, db2)"
    using fresh foc(2,3)
    by (simp add: insert_message_def cols_def row_def db2_def Let_def)
  have "m_id row \<in> set (map m_id (messages db2))"
    by (simp add: db2_def)
  then obtain db3 where db3: "saveInteractiveResponse now message row db2 = (Inr (), db3)"
      "messages db3 = messages db2"
    using saveInteractiveResponse_ok by blast
  have "saveIncomingMessage num now message contact db = (Inr row, db3)"
    using foc(1) ts ct ins db3(1)
    by (simp add: saveIncomingMessage_def Let_def x_def [symmetric] cols_def [symmetric])
  moreover have "messages db3 = messages db @ [row]"
    using db3(2) foc(3) by (simp add: db2_def)
  ultimately show ?thesis
    by (simp add: row_def cols_def x_def)
qed

lemma join_contacts_messages_in_contacts:
  "k \<in> set (join_contacts_messages i db) \<Longrightarrow> k \<in> set (map c_id (contacts db))"
  by (auto simp: join_contacts_messages_def) (metis imageI)

lemma select_contact_of_message_in_contacts:
  assumes "select_contact_of_message i db = Some k"
  shows "k \<in> set (map c_id (contacts db))"
proof -
  from assms obtain rest where "join_contacts_messages i db = k # rest"
    by (auto simp: select_contact_of_message_def split: list.splits)
  then have "k \<in> set (join_contacts_messages i db)" by simp
  then show ?thesis by (rule join_contacts_messages_in_contacts)
qed

lemma join_rows_cong:
  "map (\<lambda>m. (m_wa_message_id m, m_contact_id m)) ms'
     = map (\<lambda>m. (m_wa_message_id m, m_contact_id m)) ms \<Longrightarrow>
   [c_id c. m \<leftarrow> ms', m_wa_message_id m = i, c \<leftarrow> cs, c_id c = m_contact_id m]
     = [c_id c. m \<leftarrow> ms, m_wa_message_id m = i, c \<leftarrow> cs, c_id c = m_contact_id m]"
proof (induction ms arbitrary: ms')
  case Nil
  then show ?case by simp
next
  case (Cons m ms)
  then obtain m' ms'' where ms': "ms' = m' # ms''" by (cases ms') auto
  with Cons.prems have "m_wa_message_id m' = m_wa_message_id m" "m_contact_id m' = m_contact_id m"
      "map (\<lambda>m. (m_wa_message_id m, m_contact_id m)) ms''
         = map (\<lambda>m. (m_wa_message_id m, m_contact_id m)) ms"
    by simp_all
  with Cons.IH [of ms''] show ?case by (simp add: ms')
qed

lemma select_contact_of_message_cong:
  assumes "map (\<lambda>m. (m_wa_message_id m, m_contact_id m)) (messages db')
         = map (\<lambda>m. (m_wa_message_id m, m_contact_id m)) (messages db)"
    and "contacts db' = contacts db"
  shows "select_contact_of_message i db' = select_contact_of_message i db"
proof -
  have "join_contacts_messages i db' = join_contacts_messages i db"
    unfolding join_contacts_messages_def assms(2) by (rule join_rows_cong [OF assms(1)])
  then show ?thesis
    by (simp add: select_contact_of_message_def)
qed

lemma insert_or_ignore_conversation_ok:
  assumes "k \<in> set (map c_id (contacts db))"
  shows "fst (insert_or_ignore_conversation now cid k ot ex db) = Inr ()"
    and "messages (snd (insert_or_ignore_conversation now cid k ot ex db)) = messages db"
    and "message_statuses (snd (insert_or_ignore_conversation now cid k ot ex db))
           = message_statuses db"
    and "contacts (snd (insert_or_ignore_conversation now cid k ot ex db)) = contacts db"
    and "\<exists>rows. conversations (snd (insert_or_ignore_conversation now cid k ot ex db))
             = conversations db @ rows
           \<and> map cv_wa_conversation_id rows
               = (if cid \<in> set (map cv_wa_conversation_id (conversations db)) then [] else [cid])"
  using assms by (auto simp: insert_or_ignore_conversation_def Let_def)

lemma insert_message_status_frame:
  "messages (insert_message_status now i s t ec em db) = messages db"
  "contacts (insert_message_status now i s t ec em db) = contacts db"
  "conversations (insert_message_status now i s t ec em db) = conversations db"
  "message_statuses (insert_message_status now i s t ec em db)
     = message_statuses db @
       [\<lparr>h_id = rowid (seq_message_statuses db) (map h_id (message_statuses db)),
         h_wa_message_id = i, h_status = s, h_timestamp = t, h_error_code = ec,
         h_error_message = em, h_created_at = now\<rparr>]"
  by (simp_all add: insert_message_status_def Let_def)

lemma updateMessageStatus_effect:
  assumes ts: "epochToISO (st_timestamp status) = Inr stamp"
  shows "fst (updateMessageStatus now status db) = Inr ()"
    and "messages (snd (updateMessageStatus now status db))
           = map (\<lambda>m. if m_wa_message_id m = st_id status
                       then m\<lparr>m_status := statusText (st_status status)\<rparr> else m)
                 (messages db)"
    and "contacts (snd (updateMessageStatus now status db)) = contacts db"
    and "message_statuses (snd (updateMessageStatus now status db))
           = message_statuses db @
             [\<lparr>h_id = rowid (seq_message_statuses db) (map h_id (message_statuses db)),
               h_wa_message_id = st_id status, h_status = statusText (st_status status),
               h_timestamp = stamp,
               h_error_code = num_or_null (map_option err_code (first_error status)),
               h_error_message = or_null (map_option err_message (first_error status)),
               h_created_at = now\<rparr>]"
proof -
  define db1 where "db1 = db\<lparr>messages := map (\<lambda>m. if m_wa_message_id m = st_id status
                       then m\<lparr>m_status := statusText (st_status status)\<rparr> else m)
                 (messages db)\<rparr>"
  define db2 where "db2 = insert_message_status now (st_id status) (statusText (st_status status))
      stamp (num_or_null (map_option err_code (first_error status)))
      (or_null (map_option err_message (first_error status))) db1"
  have unfold: "updateMessageStatus now status db =
      (case st_conversation status of
         None \<Rightarrow> (Inr (), db2)
       | Some conversation \<Rightarrow>
           (case select_contact_of_message (st_id status) db2 of
              None \<Rightarrow> (Inr (), db2)
            | Some contactId \<Rightarrow>
                insert_or_ignore_conversation now (conv_id conversation) contactId
                  (originText (origin_type (origin conversation)))
                  (or_null (expiration_timestamp conversation)) db2))"
    unfolding updateMessageStatus_def ts update_message_status_statusText db2_def db1_def
    by (simp add: Let_def)
  note ok = insert_or_ignore_conversation_ok [OF select_contact_of_message_in_contacts]
  show "fst (updateMessageStatus now status db) = Inr ()"
    unfolding unfold by (simp split: option.splits add: ok)
  show "messages (snd (updateMessageStatus now status db))
           = map (\<lambda>m. if m_wa_message_id m = st_id status
                       then m\<lparr>m_status := statusText (st_status status)\<rparr> else m)
                 (messages db)"
    unfolding unfold
    by (simp split: option.splits add: ok) (simp add: db2_def db1_def insert_message_status_frame)
  show "contacts (snd (updateMessageStatus now status db)) = contacts db"
    unfolding unfold
    by (simp split: option.splits add: ok) (simp add: db2_def db1_def insert_message_status_frame)
  show "message_statuses (snd (updateMessageStatus now status db))
           = message_statuses db @
             [\<lparr>h_id = rowid (seq_message_statuses db) (map h_id (message_statuses db)),
               h_wa_message_id = st_id status, h_status = statusText (st_status status),
               h_timestamp = stamp,
               h_error_code = num_or_null (map_option err_code (first_error status)),
               h_error_message = or_null (map_option err_message (first_error status)),
               h_created_at = now\<rparr>]"
    unfolding unfold
    by (simp split: option.splits add: ok) (simp add: db2_def db1_def insert_message_status_frame)
qed

lemma updateMessageStatus_join:
  assumes "epochToISO (st_timestamp status) = Inr stamp"
  shows "select_contact_of_message i (snd (updateMessageStatus now status db))
           = select_contact_of_message i db"
  by (rule select_contact_of_message_cong)
     (simp_all add: updateMessageStatus_effect [OF assms] comp_def if_distrib cong: if_cong)

lemma updateMessageStatus_conversations:
  assumes ts: "epochToISO (st_timestamp status) = Inr stamp"
    and conv: "st_conversation status = Some cv"
    and known: "select_contact_of_message (st_id status) db = Some k"
  shows "\<exists>rows. conversations (snd (updateMessageStatus now status db))
             = conversations db @ rows
           \<and> map cv_wa_conversation_id rows
               = (if conv_id cv \<in> set (map cv_wa_conversation_id (conversations db))
                  then [] else [conv_id cv])"
proof -
  define db1 where "db1 = db\<lparr>messages := map (\<lambda>m. if m_wa_message_id m = st_id status
                       then m\<lparr>m_status := statusText (st_status status)\<rparr> else m)
                 (messages db)\<rparr>"
  define db2 where "db2 = insert_message_status now (st_id status) (statusText (st_status status))
      stamp (num_or_null (map_option err_code (first_error status)))
      (or_null (map_option err_message (first_error status))) db1"
  have "select_contact_of_message (st_id status) db2 = select_contact_of_message (st_id status) db"
    by (rule select_contact_of_message_cong)
       (simp_all add: db2_def db1_def insert_message_status_frame comp_def if_distrib
          cong: if_cong)
  with known have k: "select_contact_of_message (st_id status) db2 = Some k"
    by simp
  have unfold: "updateMessageStatus now status db =
      insert_or_ignore_conversation now (conv_id cv) k
        (originText (origin_type (origin cv))) (or_null (expiration_timestamp cv)) db2"
    unfolding updateMessageStatus_def ts update_message_status_statusText
    by (simp add: Let_def conv k [unfolded db2_def db1_def])
       (simp add: db2_def db1_def)
  have "k \<in> set (map c_id (contacts db2))"
    using k by (rule select_contact_of_message_in_contacts)
  from insert_or_ignore_conversation_ok(5) [OF this]
  show ?thesis
    unfolding unfold by (simp add: db2_def db1_def insert_message_status_frame)
qed

lemma count_distinct:
  "distinct (map f xs) \<Longrightarrow>
   length (filter (\<lambda>x. f x = a) xs) = (if a \<in> set (map f xs) then 1 else 0)"
  by (induction xs) auto

lemma map_unchanged: "\<forall>x \<in> set xs. \<not> P x \<Longrightarrow> map (\<lambda>x. if P x then g x else x) xs = xs"
  by (induction xs) simp_all

lemma epoch_1700000000: "epochToISO ''1700000000'' = Inr ''2023-11-14T22:13:20.000Z''"
  by code_simp

subsection \<open>The unique columns stay unique\<close>

text \<open>
  The hypotheses of distinct identifiers below are invariants of the store: they hold of
  the empty store and every method keeps them.
\<close>

lemma saveInteractiveResponse_frame:
  "messages (snd (saveInteractiveResponse now message result db)) = messages db"
  "contacts (snd (saveInteractiveResponse now message result db)) = contacts db"
  "conversations (snd (saveInteractiveResponse now message result db)) = conversations db"
  by (simp_all add: saveInteractiveResponse_def insert_interactive_response_def Let_def
        split: option.splits)

lemma saveInteractiveResponse_messagesD:
  "saveInteractiveResponse now message result db = (r, db') \<Longrightarrow> messages db' = messages db"
  using saveInteractiveResponse_frame(1) [of now message result db] by simp

lemma insert_message_messages:
  "messages (snd (insert_message now cols db)) = messages db
   \<or> (\<exists>row. messages (snd (insert_message now cols db)) = messages db @ [row]
        \<and> m_wa_message_id row = m_wa_message_id cols
        \<and> m_wa_message_id cols \<notin> set (map m_wa_message_id (messages db)))"
  by (auto simp: insert_message_def Let_def)

lemma saveIncomingMessage_messages:
  "messages (snd (saveIncomingMessage num now message contact db)) = messages db
   \<or> (\<exists>row. messages (snd (saveIncomingMessage num now message contact db))
               = messages db @ [row]
        \<and> m_wa_message_id row = msg_id message
        \<and> msg_id message \<notin> set (map m_wa_message_id (messages db)))"
proof -
  obtain c db1 where foc:
      "findOrCreateContact now (msg_from message)
         (map_option (\<lambda>c. profile_name (profile c)) contact) db = (Inr c, db1)"
      "messages db1 = messages db"
    using findOrCreateContact_obtain by metis
  show ?thesis
  proof (cases "epochToISO (msg_timestamp message)")
    case (Inl e)
    then show ?thesis
      using foc by (simp add: saveIncomingMessage_def Let_def)
  next
    case (Inr stamp)
    show ?thesis
    proof (cases "bind_text (content (extractContent num message))")
      case (Inl e)
      then show ?thesis
        using foc Inr by (simp add: saveIncomingMessage_def Let_def)
    next
      case ct: (Inr ct)
      define cols where "cols =
         \<lparr>m_id = 0, m_wa_message_id = msg_id message, m_contact_id = c_id c,
          m_direction = ''incoming'', m_type = msg_type message, m_content = ct,
          m_media_id = mediaId (extractContent num message), m_media_url = None,
          m_media_mime_type = mediaMimeType (extractContent num message),
          m_media_filename = mediaFilename (extractContent num message),
          m_caption = caption (extractContent num message),
          m_latitude = latitude (extractContent num message),
          m_longitude = longitude (extractContent num message),
          m_location_name = locationName (extractContent num message),
          m_location_address = locationAddress (extractContent num message),
          m_reply_to_message_id = or_null (map_option ctx_id (msg_context message)),
          m_status = ''received'', m_timestamp = stamp, m_created_at = now\<rparr>"
      have "messages (snd (saveIncomingMessage num now message contact db))
          = messages (snd (insert_message now cols db1))"
        using foc(1) Inr ct
        by (auto simp: saveIncomingMessage_def Let_def cols_def [symmetric]
              split: prod.splits sum.splits dest: saveInteractiveResponse_messagesD)
      moreover have "m_wa_message_id cols = msg_id message"
        by (simp add: cols_def)
      ultimately show ?thesis
        using insert_message_messages [of now cols db1] foc(2) by simp
    qed
  qed
qed

lemma saveIncomingMessage_keeps_unique:
  assumes "distinct (map m_wa_message_id (messages db))"
  shows "distinct (map m_wa_message_id
                     (messages (snd (saveIncomingMessage num now message contact db))))"
  using saveIncomingMessage_messages [of num now message contact db] assms by auto

lemma updateMessageStatus_keeps_ids:
  "map m_wa_message_id (messages (snd (updateMessageStatus now status db)))
     = map m_wa_message_id (messages db)"
proof (cases "epochToISO (st_timestamp status)")
  case (Inl e)
  then show ?thesis by (simp add: updateMessageStatus_def)
next
  case (Inr stamp)
  show ?thesis
    unfolding updateMessageStatus_effect(2) [OF Inr]
    by (simp add: comp_def if_distrib cong: if_cong)
qed

lemma empty_db_unique:
  "distinct (map m_wa_message_id (messages empty_db))"
  "distinct (map c_wa_id (contacts empty_db))"
  "distinct (map cv_wa_conversation_id (conversations empty_db))"
  by (simp_all add: empty_db_def)

lemma findOrCreateContact_keeps_unique:
  assumes "distinct (map c_wa_id (contacts db))"
  shows "distinct (map c_wa_id (contacts (snd (findOrCreateContact now w name db))))"
proof (cases "select_contact w db")
  case None
  then have "w \<notin> set (map c_wa_id (contacts db))"
    by (auto simp: select_contact_None)
  with assms None show ?thesis
    by (simp add: findOrCreateContact_new Let_def)
next
  case (Some existing)
  have "map c_wa_id (contacts (update_contact now n w db)) = map c_wa_id (contacts db)" for n
    by (simp add: update_contact_def comp_def if_distrib cong: if_cong)
  with assms Some show ?thesis
    by (simp add: findOrCreateContact_existing)
qed

lemma insert_or_ignore_conversation_rows:
  "\<exists>rows. conversations (snd (insert_or_ignore_conversation now cid k ot ex db))
            = conversations db @ rows
         \<and> (rows = [] \<or> map cv_wa_conversation_id rows = [cid]
               \<and> cid \<notin> set (map cv_wa_conversation_id (conversations db)))"
  by (auto simp: insert_or_ignore_conversation_def Let_def)

lemma updateMessageStatus_keeps_unique:
  assumes "distinct (map cv_wa_conversation_id (conversations db))"
  shows "distinct (map cv_wa_conversation_id
                     (conversations (snd (updateMessageStatus now status db))))"
proof (cases "epochToISO (st_timestamp status)")
  case (Inl e)
  with assms show ?thesis by (simp add: updateMessageStatus_def)
next
  case (Inr stamp)
  define db2 where "db2 = insert_message_status now (st_id status)
      (statusText (st_status status)) stamp
      (num_or_null (map_option err_code (first_error status)))
      (or_null (map_option err_message (first_error status)))
      (db\<lparr>messages := map (\<lambda>m. if m_wa_message_id m = st_id status
                     then m\<lparr>m_status := statusText (st_status status)\<rparr> else m)
               (messages db)\<rparr>)"
  have c2: "conversations db2 = conversations db"
    by (simp add: db2_def insert_message_status_frame)
  have "conversations (snd (updateMessageStatus now status db)) = conversations db2
      \<or> (\<exists>cid k ot ex. conversations (snd (updateMessageStatus now status db))
            = conversations (snd (insert_or_ignore_conversation now cid k ot ex db2)))"
    unfolding updateMessageStatus_def Inr update_message_status_statusText
    by (auto simp: Let_def db2_def [symmetric] split: option.splits)
  then show ?thesis
  proof
    assume "conversations (snd (updateMessageStatus now status db)) = conversations db2"
    with assms c2 show ?thesis by simp
  next
    assume "\<exists>cid k ot ex. conversations (snd (updateMessageStatus now status db))
            = conversations (snd (insert_or_ignore_conversation now cid k ot ex db2))"
    then obtain cid k ot ex where
      "conversations (snd (updateMessageStatus now status db))
         = conversations (snd (insert_or_ignore_conversation now cid k ot ex db2))"
      by blast
    with insert_or_ignore_conversation_rows [of now cid k ot ex db2] assms c2
    show ?thesis by auto
  qed
qed

section \<open>Lemmas about the route\<close>

lemma content_log_no_announcement: "filter is_announcement (content_log m) = []"
  by (simp add: content_log_def split: option.splits)

lemma processed_refl: "processed db [] w w"
  by (simp add: processed_def)

lemma processed_trans:
  "processed db xs w w' \<Longrightarrow> processed db ys w' w'' \<Longrightarrow> processed db (xs @ ys) w w''"
  by (simp add: processed_def)

lemma processed_emit:
  "filter is_announcement es = [] \<Longrightarrow> processed db xs w w' \<Longrightarrow> processed db xs w (emit es w')"
  by (simp add: processed_def emit_def)

lemma emit_processed:
  "filter is_announcement es = [] \<Longrightarrow> processed db xs (emit es w) w' \<Longrightarrow> processed db xs w w'"
  by (simp add: processed_def emit_def)

lemma handleIncomingMessage_processed:
  "processed db [Message_item m v] w (handleIncomingMessage db m v w)"
  by (simp add: processed_def handleIncomingMessage_def Let_def emit_def
        content_log_no_announcement split: prod.splits sum.splits)

lemma handleStatusUpdate_processed:
  "processed db [Status_item s] w (handleStatusUpdate db s w)"
  by (simp add: processed_def handleStatusUpdate_def Let_def emit_def comp_def
        split: prod.splits sum.splits option.splits)

lemma fold_handleIncomingMessage_processed:
  "processed db (map (\<lambda>m. Message_item m v) ms) w
     (fold (\<lambda>message. handleIncomingMessage db message v) ms w)"
proof (induction ms arbitrary: w)
  case Nil
  show ?case by (simp add: processed_refl)
next
  case (Cons m ms)
  from processed_trans [OF handleIncomingMessage_processed Cons.IH]
  show ?case by simp
qed

lemma fold_handleStatusUpdate_processed:
  "processed db (map Status_item ss) w (fold (handleStatusUpdate db) ss w)"
proof (induction ss arbitrary: w)
  case Nil
  show ?case by (simp add: processed_refl)
next
  case (Cons s ss)
  from processed_trans [OF handleStatusUpdate_processed Cons.IH]
  show ?case by simp
qed

lemma processMessagesChange_processed:
  "processed db (items_of_value v) w (processMessagesChange db v w)"
proof -
  define w1 where "w1 = emit [log_webhook_received (display_phone_number (metadata v))] w"
  define w2 where "w2 = (case wv_messages v of None \<Rightarrow> w1
      | Some msgs \<Rightarrow> fold (\<lambda>message. handleIncomingMessage db message v) msgs w1)"
  define w3 where "w3 = (case wv_statuses v of None \<Rightarrow> w2
      | Some statuses \<Rightarrow> fold (handleStatusUpdate db) statuses w2)"
  have 1: "processed db (map (\<lambda>m. Message_item m v) (case wv_messages v of None \<Rightarrow> [] | Some ms \<Rightarrow> ms)) w1 w2"
    by (simp add: w2_def processed_refl fold_handleIncomingMessage_processed split: option.splits)
  have 2: "processed db (map Status_item (case wv_statuses v of None \<Rightarrow> [] | Some ss \<Rightarrow> ss)) w2 w3"
    by (simp add: w3_def processed_refl fold_handleStatusUpdate_processed split: option.splits)
  have "processed db (items_of_value v) w1 w3"
    using processed_trans [OF 1 2] by (simp add: items_of_value_def)
  then have 3: "processed db (items_of_value v) w w3"
    unfolding w1_def by (rule emit_processed [rotated]) simp
  have "processMessagesChange db v w
      = (case wv_errors v of None \<Rightarrow> w3 | Some errors \<Rightarrow> emit (map error_webhook errors) w3)"
    unfolding processMessagesChange_def Let_def w3_def w2_def w1_def ..
  moreover have "filter is_announcement (map error_webhook errors) = []" for errors
    by (induction errors) simp_all
  ultimately show ?thesis
    using 3 by (simp add: processed_emit split: option.splits)
qed

lemma fold_changes_processed:
  "processed db (concat (map (\<lambda>c. items_of_value (change_value c))
                           (filter (\<lambda>c. field c = ''messages'') cs))) w
     (fold (\<lambda>change w'. if field change = ''messages''
                          then processMessagesChange db (change_value change) w' else w') cs w)"
proof (induction cs arbitrary: w)
  case Nil
  show ?case by (simp add: processed_refl)
next
  case (Cons c cs)
  show ?case
  proof (cases "field c = ''messages''")
    case True
    from processed_trans [OF processMessagesChange_processed Cons.IH]
    show ?thesis using True by simp
  next
    case False
    with Cons.IH show ?thesis by simp
  qed
qed

lemma fold_entries_processed:
  "processed db (concat (map (\<lambda>e. concat (map (\<lambda>c. items_of_value (change_value c))
                                  (filter (\<lambda>c. field c = ''messages'') (changes e)))) es)) w
     (fold (\<lambda>e. fold (\<lambda>change w'. if field change = ''messages''
                          then processMessagesChange db (change_value change) w' else w')
                       (changes e)) es w)"
proof (induction es arbitrary: w)
  case Nil
  show ?case by (simp add: processed_refl)
next
  case (Cons e es)
  from processed_trans [OF fold_changes_processed Cons.IH]
  show ?case by simp
qed

section \<open>Lemmas about calls that run at the same time\<close>

subsection \<open>Statements in any order\<close>

lemma step_is_findOrCreateContact:
  "run [Step 0, Step 0]
     ([\<lparr>call_now = now, call_waId = w, call_name = name, stage = Start\<rparr>], db)
   = ([\<lparr>call_now = now, call_waId = w, call_name = name,
         stage = Returned (fst (findOrCreateContact now w name db))\<rparr>],
      snd (findOrCreateContact now w name db))"
  by (cases "select_contact w db")
     (simp_all add: step_def findOrCreateContact_def split: prod.splits)

lemma update_contact_wa_ids:
  "map c_wa_id (contacts (update_contact now name w db)) = map c_wa_id (contacts db)"
  by (simp add: update_contact_def comp_def if_distrib cong: if_cong)

lemma update_contact_frame:
  "messages (update_contact now name w db) = messages db"
  "conversations (update_contact now name w db) = conversations db"
  by (simp_all add: update_contact_def)

lemma insert_contact_unique:
  "unique_columns db \<Longrightarrow> unique_columns (snd (insert_contact now w name phone db))"
  by (auto simp: unique_columns_def insert_contact_def Let_def)

lemma insert_message_unique:
  "unique_columns db \<Longrightarrow> unique_columns (snd (insert_message now cols db))"
  by (auto simp: unique_columns_def insert_message_def Let_def)

lemma update_message_status_unique:
  "unique_columns db \<Longrightarrow> unique_columns (snd (update_message_status s i db))"
  by (simp add: unique_columns_def update_message_status_def comp_def if_distrib cong: if_cong)

lemma insert_message_status_unique:
  "unique_columns db \<Longrightarrow> unique_columns (insert_message_status now i s t ec em db)"
  by (simp add: unique_columns_def insert_message_status_def Let_def)

lemma insert_or_ignore_conversation_unique:
  "unique_columns db \<Longrightarrow> unique_columns (snd (insert_or_ignore_conversation now cid k ot ex db))"
  by (auto simp: unique_columns_def insert_or_ignore_conversation_def Let_def)

lemma insert_interactive_response_unique:
  "unique_columns db \<Longrightarrow> unique_columns (snd (insert_interactive_response now i ty rid title d db))"
  by (simp add: unique_columns_def insert_interactive_response_def Let_def)

lemma update_contact_unique:
  "unique_columns db \<Longrightarrow> unique_columns (update_contact now name w db)"
  by (simp add: unique_columns_def update_contact_wa_ids update_contact_frame)

lemma execute_unique: "unique_columns db \<Longrightarrow> unique_columns (execute st db)"
  by (cases st)
     (simp_all add: insert_contact_unique update_contact_unique insert_message_unique
        update_message_status_unique insert_message_status_unique
        insert_or_ignore_conversation_unique insert_interactive_response_unique)

lemma step_unique: "unique_columns db \<Longrightarrow> unique_columns (snd (step c db))"
proof (cases "stage c")
  case Absent
  then show "unique_columns db \<Longrightarrow> unique_columns (snd (step c db))"
    using insert_contact_unique [of db "call_now c" "call_waId c" "or_null (call_name c)"
            "Some (call_waId c)"]
    by (auto simp: step_def split: prod.splits)
qed (simp_all add: step_def update_contact_unique)

lemma run_unique: "unique_columns db \<Longrightarrow> unique_columns (snd (run es (cs, db)))"
proof (induction es arbitrary: cs db)
  case Nil
  then show ?case by simp
next
  case (Cons e es)
  show ?case
  proof (cases e)
    case (Step i)
    show ?thesis
    proof (cases "i < length cs")
      case True
      obtain c' db' where s: "step (cs ! i) db = (c', db')" by (cases "step (cs ! i) db")
      with step_unique [OF Cons.prems, of "cs ! i"] have "unique_columns db'" by simp
      from Cons.IH [OF this] show ?thesis using Step True s by simp
    next
      case False
      with Cons Step show ?thesis by simp
    qed
  next
    case (Other st)
    from Cons.IH [OF execute_unique [OF Cons.prems]] show ?thesis using Other by simp
  qed
qed

subsection \<open>Upserts for one address\<close>

lemma step_waId: "call_waId (fst (step c db)) = call_waId c"
  by (cases "stage c") (simp_all add: step_def split: prod.splits)

lemma step_grows:
  "set (map c_wa_id (contacts db)) \<subseteq> set (map c_wa_id (contacts (snd (step c db))))"
proof (cases "stage c")
  case Absent
  then show ?thesis
    by (auto simp: step_def insert_contact_def Let_def split: prod.splits)
next
  case (Found existing)
  then show ?thesis
    by (simp add: step_def update_contact_wa_ids)
qed (simp_all add: step_def)

lemma execute_grows:
  "set (map c_wa_id (contacts db)) \<subseteq> set (map c_wa_id (contacts (execute st db)))"
proof (cases st)
  case (INSERT_contact now w name phone)
  then show ?thesis
    by (auto simp: insert_contact_def Let_def)
next
  case (UPDATE_contact now name w)
  then show ?thesis
    by (simp add: update_contact_wa_ids)
qed (simp_all add: insert_message_def update_message_status_def insert_message_status_def
       insert_or_ignore_conversation_def insert_interactive_response_def Let_def)

lemma settled_mono:
  "settled c db \<Longrightarrow>
   set (map c_wa_id (contacts db)) \<subseteq> set (map c_wa_id (contacts db')) \<Longrightarrow> settled c db'"
  by (auto simp: settled_def)

lemma step_settled:
  assumes "settled c db"
  shows "settled (fst (step c db)) (snd (step c db))"
proof (cases "stage c")
  case Start
  show ?thesis
  proof (cases "select_contact (call_waId c) db")
    case None
    with Start show ?thesis by (simp add: step_def settled_def)
  next
    case (Some existing)
    from select_contact_Some [OF this]
    have "call_waId c \<in> set (map c_wa_id (contacts db))" by force
    with Start Some show ?thesis by (simp add: step_def settled_def)
  qed
next
  case (Found existing)
  with assms show ?thesis
    by (simp add: step_def settled_def update_contact_wa_ids)
next
  case Absent
  then show ?thesis
    by (auto simp: step_def settled_def insert_contact_def Let_def split: prod.splits)
       (metis imageI)
next
  case (Returned r)
  with assms show ?thesis
    by (simp add: step_def settled_def)
qed

lemma run_settled:
  "\<forall>c \<in> set cs. settled c db \<Longrightarrow>
   \<forall>c \<in> set (fst (run es (cs, db))). settled c (snd (run es (cs, db)))"
proof (induction es arbitrary: cs db)
  case Nil
  then show ?case by simp
next
  case (Cons e es)
  show ?case
  proof (cases e)
    case (Step i)
    show ?thesis
    proof (cases "i < length cs")
      case True
      obtain c' db' where s: "step (cs ! i) db = (c', db')" by (cases "step (cs ! i) db")
      have "settled (cs ! i) db" using Cons.prems True by simp
      from step_settled [OF this] s have c': "settled c' db'" by simp
      have grows: "set (map c_wa_id (contacts db)) \<subseteq> set (map c_wa_id (contacts db'))"
        using step_grows [of db "cs ! i"] s by simp
      have "\<forall>c \<in> set (cs[i := c']). settled c db'"
      proof
        fix c assume "c \<in> set (cs[i := c'])"
        then have "c = c' \<or> c \<in> set cs"
          using set_update_subset_insert [of cs i c'] by auto
        then show "settled c db'"
          using c' Cons.prems settled_mono [OF _ grows] by auto
      qed
      from Cons.IH [OF this] show ?thesis using Step True s by simp
    next
      case False
      with Cons Step show ?thesis by simp
    qed
  next
    case (Other st)
    have "\<forall>c \<in> set cs. settled c (execute st db)"
      using Cons.prems settled_mono [OF _ execute_grows] by blast
    from Cons.IH [OF this] show ?thesis using Other by simp
  qed
qed

lemma run_waIds: "map call_waId (fst (run es (cs, db))) = map call_waId cs"
proof (induction es arbitrary: cs db)
  case Nil
  show ?case by simp
next
  case (Cons e es)
  show ?case
  proof (cases e)
    case (Step i)
    show ?thesis
    proof (cases "i < length cs")
      case True
      obtain c' db' where s: "step (cs ! i) db = (c', db')" by (cases "step (cs ! i) db")
      then have "call_waId c' = call_waId (cs ! i)"
        using step_waId [of "cs ! i" db] by simp
      then have "map call_waId (cs[i := c']) = map call_waId cs"
        using True by (simp add: map_update list_update_same_conv)
      with Cons.IH [of "cs[i := c']" db'] show ?thesis using Step True s by simp
    next
      case False
      with Cons.IH [of cs db] Step show ?thesis by simp
    qed
  next
    case (Other st)
    with Cons.IH [of cs "execute st db"] show ?thesis by simp
  qed
qed

lemma step_race:
  assumes "stage c = Absent" and "call_waId c \<in> set (map c_wa_id (contacts db))"
  shows "step c db
           = (c\<lparr>stage := Returned (Inl (D1_ERROR ''UNIQUE constraint failed: contacts.wa_id''))\<rparr>,
              db)"
  using assms by (auto simp: step_def insert_contact_def)

section \<open>The claims\<close>

subsection \<open>C1: a second insert of a stored message identifier\<close>

text \<open>
  C1, as the claim states it, fails: the INSERT of \<^verbatim>\<open>saveIncomingMessage\<close> is a plain
  INSERT against the UNIQUE \<^verbatim>\<open>wa_message_id\<close>, so the second call with a stored
  identifier throws instead of returning the stored row. In scenario A the store holds
  the message \<^verbatim>\<open>wamid.A\<close> and the same event is saved again.
\<close>

theorem saveIncomingMessage_duplicate_counterexample:
  "map m_wa_message_id (messages db_A) = [msg_id message_A]
   \<and> fst (saveIncomingMessage no_number ''2023-11-14 22:14:00'' message_A None db_A)
       = Inl (D1_ERROR ''UNIQUE constraint failed: messages.wa_message_id'')"
  by code_simp

text \<open>
  C1, amended. When the identifier of the event is already that of a stored row (the
  identifiers of the table being distinct, as the UNIQUE constraint keeps them),
  \<^verbatim>\<open>saveIncomingMessage\<close> throws, and it leaves the messages table as it was, with
  exactly one row for that identifier, and the interactive responses as they were: no
  second row, and no row returned. When the timestamp converts and the content is not
  \<^verbatim>\<open>undefined\<close>, the exception is the store's uniqueness violation.
  \<^verbatim>\<open>handleIncomingMessage\<close>, which calls the method on the D1 service, catches the
  exception: it returns, and what it wrote to the console is the announcement of the
  message followed by the line of the error.
\<close>

theorem saveIncomingMessage_duplicate_rejected:
  assumes "msg_id message \<in> set (map m_wa_message_id (messages db))"
    and "distinct (map m_wa_message_id (messages db))"
  shows "isl (fst (saveIncomingMessage num now message contact db))
       \<and> messages (snd (saveIncomingMessage num now message contact db)) = messages db
       \<and> length (filter (\<lambda>m. m_wa_message_id m = msg_id message)
                   (messages (snd (saveIncomingMessage num now message contact db)))) = 1
       \<and> interactive_responses (snd (saveIncomingMessage num now message contact db))
           = interactive_responses db
       \<and> (\<not> isl (epochToISO (msg_timestamp message))
            \<and> content (extractContent num message) \<noteq> Undefined \<longrightarrow>
          fst (saveIncomingMessage num now message contact db)
            = Inl (D1_ERROR ''UNIQUE constraint failed: messages.wa_message_id''))
       \<and> (\<exists>e. fst (saveIncomingMessage num now message (find_contact v message) db) = Inl e
             \<and> handleIncomingMessage (D1_DatabaseService num now) message v
                   \<lparr>console = cs, DB = db\<rparr>
                 = \<lparr>console = cs @ [log_message_received (senderName (find_contact v message))
                                       (msg_from message) (msg_id message) (msg_type message),
                                     error_saving_message e],
                    DB = snd (saveIncomingMessage num now message (find_contact v message) db)\<rparr>)"
proof -
  from assms(1) have dup: "\<exists>m \<in> set (messages db). m_wa_message_id m = msg_id message"
    by auto
  note d = saveIncomingMessage_duplicate [OF dup, of num now contact]
  have one: "length (filter (\<lambda>m. m_wa_message_id m = msg_id message) (messages db)) = 1"
    using count_distinct [OF assms(2), of "msg_id message"] assms(1) by simp
  have "fst (saveIncomingMessage num now message contact db)
            = Inl (D1_ERROR ''UNIQUE constraint failed: messages.wa_message_id'')"
    if "\<not> isl (epochToISO (msg_timestamp message))"
      and "content (extractContent num message) \<noteq> Undefined"
  proof -
    obtain c db1 where foc:
        "findOrCreateContact now (msg_from message)
           (map_option (\<lambda>c. profile_name (profile c)) contact) db = (Inr c, db1)"
        "messages db1 = messages db"
      using findOrCreateContact_obtain by metis
    from that(1) obtain stamp where "epochToISO (msg_timestamp message) = Inr stamp"
      by (cases "epochToISO (msg_timestamp message)") auto
    moreover from that(2) obtain ct where
        "bind_text (content (extractContent num message)) = Inr ct"
      by (cases "content (extractContent num message)") (auto simp: bind_text_def)
    ultimately show ?thesis
      using foc dup
      by (simp add: saveIncomingMessage_def insert_message_def Let_def)
  qed
  moreover have "\<exists>e. fst (saveIncomingMessage num now message (find_contact v message) db) = Inl e
             \<and> handleIncomingMessage (D1_DatabaseService num now) message v
                   \<lparr>console = cs, DB = db\<rparr>
                 = \<lparr>console = cs @ [log_message_received (senderName (find_contact v message))
                                       (msg_from message) (msg_id message) (msg_type message),
                                     error_saving_message e],
                    DB = snd (saveIncomingMessage num now message (find_contact v message) db)\<rparr>"
  proof -
    from saveIncomingMessage_duplicate(1) [OF dup, of num now "find_contact v message"]
    obtain e store where r:
        "saveIncomingMessage num now message (find_contact v message) db = (Inl e, store)"
      by (cases "saveIncomingMessage num now message (find_contact v message) db")
         (auto simp: isl_def)
    then show ?thesis
      by (simp add: handleIncomingMessage_def D1_DatabaseService_def emit_def Let_def)
  qed
  ultimately show ?thesis
    using d one by simp
qed

theorem saveIncomingMessage_duplicate_rejected_witness:
  "isl (fst (saveIncomingMessage no_number ''2023-11-14 22:14:00'' message_A' None db_A))
   \<and> messages (snd (saveIncomingMessage no_number ''2023-11-14 22:14:00'' message_A' None db_A))
       = messages db_A
   \<and> length (filter (\<lambda>m. m_wa_message_id m = ''wamid.A'')
               (messages (snd (saveIncomingMessage no_number ''2023-11-14 22:14:00'' message_A'
                                 None db_A)))) = 1
   \<and> map m_content (messages db_A) = [Some ''hi'']
   \<and> console (handleIncomingMessage (D1_DatabaseService no_number ''2023-11-14 22:14:00'')
                 message_A' value_1 \<lparr>console = [], DB = db_A\<rparr>)
       = [log_message_received ''Ann'' ''1555'' ''wamid.A'' ''text'',
          error_saving_message
            (D1_ERROR ''UNIQUE constraint failed: messages.wa_message_id'')]"
proof -
  have ids: "map m_wa_message_id (messages db_A) = [''wamid.A'']"
    and body: "map m_content (messages db_A) = [Some ''hi'']"
    by code_simp+
  have i: "msg_id message_A' = ''wamid.A''"
    by (simp add: message_A'_def blank_message_def)
  have 1: "msg_id message_A' \<in> set (map m_wa_message_id (messages db_A))"
    and 2: "distinct (map m_wa_message_id (messages db_A))"
    unfolding ids i by simp_all
  have log: "console (handleIncomingMessage (D1_DatabaseService no_number ''2023-11-14 22:14:00'')
                 message_A' value_1 \<lparr>console = [], DB = db_A\<rparr>)
       = [log_message_received ''Ann'' ''1555'' ''wamid.A'' ''text'',
          error_saving_message
            (D1_ERROR ''UNIQUE constraint failed: messages.wa_message_id'')]"
    by code_simp
  from saveIncomingMessage_duplicate_rejected
         [OF 1 2, of no_number "''2023-11-14 22:14:00''" None, unfolded i] body log
  show ?thesis
    by blast
qed

subsection \<open>C2: a status event for an unknown message\<close>

text \<open>
  C2. \<^verbatim>\<open>updateMessageStatus\<close> on an event whose timestamp converts (the timestamps of
  the platform are epoch seconds) does not throw and appends exactly one row to the
  status history, keyed by the event's message identifier and carrying its status,
  whether a message matches or not. When no stored message has that identifier the
  messages table and the conversations are left as they were.
\<close>

theorem updateMessageStatus_unknown_message:
  assumes "epochToISO (st_timestamp status) = Inr stamp"
  shows "fst (updateMessageStatus now status db) = Inr ()
       \<and> (\<exists>row. message_statuses (snd (updateMessageStatus now status db))
                   = message_statuses db @ [row]
                 \<and> h_wa_message_id row = st_id status
                 \<and> h_status row = statusText (st_status status)
                 \<and> h_timestamp row = stamp)
       \<and> ((\<forall>m \<in> set (messages db). m_wa_message_id m \<noteq> st_id status) \<longrightarrow>
            messages (snd (updateMessageStatus now status db)) = messages db
            \<and> conversations (snd (updateMessageStatus now status db)) = conversations db)"
proof -
  note e = updateMessageStatus_effect [OF assms, of now db]
  have "messages (snd (updateMessageStatus now status db)) = messages db
      \<and> conversations (snd (updateMessageStatus now status db)) = conversations db"
    if miss: "\<forall>m \<in> set (messages db). m_wa_message_id m \<noteq> st_id status"
  proof
    show same: "messages (snd (updateMessageStatus now status db)) = messages db"
      unfolding e(2) using miss by (intro map_unchanged) simp
    define db2 where "db2 = insert_message_status now (st_id status)
        (statusText (st_status status)) stamp
        (num_or_null (map_option err_code (first_error status)))
        (or_null (map_option err_message (first_error status)))
        (db\<lparr>messages := map (\<lambda>m. if m_wa_message_id m = st_id status
                       then m\<lparr>m_status := statusText (st_status status)\<rparr> else m)
                 (messages db)\<rparr>)"
    have "join_contacts_messages (st_id status) db2 = []"
      using miss
      by (auto simp: join_contacts_messages_def db2_def insert_message_status_frame)
    then have none: "select_contact_of_message (st_id status) db2 = None"
      by (simp add: select_contact_of_message_def)
    have "updateMessageStatus now status db = (Inr (), db2)"
      unfolding updateMessageStatus_def assms update_message_status_statusText
      by (simp add: Let_def none [unfolded db2_def] split: option.splits)
         (simp add: db2_def)
    then show "conversations (snd (updateMessageStatus now status db)) = conversations db"
      by (simp add: db2_def insert_message_status_frame)
  qed
  with e(1,4) show ?thesis
    by simp
qed

theorem updateMessageStatus_unknown_message_witness:
  "map m_wa_message_id (messages db_A) = [''wamid.A'']
   \<and> fst (updateMessageStatus ''2023-11-14 22:15:00'' status_ZZZ db_A) = Inr ()
   \<and> messages (snd (updateMessageStatus ''2023-11-14 22:15:00'' status_ZZZ db_A)) = messages db_A
   \<and> (\<exists>row. message_statuses (snd (updateMessageStatus ''2023-11-14 22:15:00'' status_ZZZ db_A))
               = message_statuses db_A @ [row]
             \<and> h_wa_message_id row = ''wamid.ZZZ'' \<and> h_status row = ''delivered'')"
proof -
  have ids: "map m_wa_message_id (messages db_A) = [''wamid.A'']"
    by code_simp
  have s: "st_id status_ZZZ = ''wamid.ZZZ''" "statusText (st_status status_ZZZ) = ''delivered''"
    and 1: "epochToISO (st_timestamp status_ZZZ) = Inr ''2023-11-14T22:13:20.000Z''"
    by (simp_all add: status_ZZZ_def blank_status_def epoch_1700000000)
  have miss: "\<forall>m \<in> set (messages db_A). m_wa_message_id m \<noteq> st_id status_ZZZ"
    using ids unfolding s by (cases "messages db_A") auto
  from updateMessageStatus_unknown_message [OF 1, of "''2023-11-14 22:15:00''" db_A] miss
  show ?thesis
    using ids unfolding s by blast
qed

subsection \<open>C3: concurrent notifications\<close>

text \<open>
  C3, as the claim states it, fails on its last part: the contact upsert is not an atomic
  insert-or-update but a check followed by an insert, and another call's statements can
  come between the two. Two calls of \<^verbatim>\<open>findOrCreateContact\<close> for the new address
  \<^verbatim>\<open>1555\<close> both run their SELECT before either runs its INSERT: the first INSERT
  creates the row, the second is refused by the UNIQUE constraint and its call throws.
  Run one after the other, both calls return a row.
\<close>

theorem concurrent_upsert_counterexample:
  "map stage (fst (run [Step 0, Step 1, Step 0, Step 1] ([call_1, call_2], empty_db)))
     = [Returned (Inr \<lparr>c_id = 1, c_wa_id = ''1555'', c_name = Some ''Ann'',
                       c_phone_number = Some ''1555'',
                       c_first_seen_at = ''2023-11-14 22:13:21'',
                       c_last_message_at = ''2023-11-14 22:13:21'',
                       c_created_at = ''2023-11-14 22:13:21'',
                       c_updated_at = ''2023-11-14 22:13:21''\<rparr>),
        Returned (Inl (D1_ERROR ''UNIQUE constraint failed: contacts.wa_id''))]
   \<and> map stage (fst (run [Step 0, Step 0, Step 1, Step 1] ([call_1, call_2], empty_db)))
     = [Returned (Inr \<lparr>c_id = 1, c_wa_id = ''1555'', c_name = Some ''Ann'',
                       c_phone_number = Some ''1555'',
                       c_first_seen_at = ''2023-11-14 22:13:21'',
                       c_last_message_at = ''2023-11-14 22:13:21'',
                       c_created_at = ''2023-11-14 22:13:21'',
                       c_updated_at = ''2023-11-14 22:13:21''\<rparr>),
        Returned (Inr \<lparr>c_id = 1, c_wa_id = ''1555'', c_name = Some ''Ann'',
                       c_phone_number = Some ''1555'',
                       c_first_seen_at = ''2023-11-14 22:13:21'',
                       c_last_message_at = ''2023-11-14 22:13:21'',
                       c_created_at = ''2023-11-14 22:13:21'',
                       c_updated_at = ''2023-11-14 22:13:21''\<rparr>)]"
  by code_simp

text \<open>
  C3, amended. Whatever the order in which the statements of concurrently running
  invocations reach the store, the three UNIQUE columns never hold a value twice: if they
  are distinct before, they are distinct after every schedule of steps of
  \<^verbatim>\<open>findOrCreateContact\<close> calls and of other statements. When any number of calls, at
  least one, upsert one address and all have returned or thrown, the contacts table has
  exactly one row for that address. It is the UNIQUE constraint of the store that gives
  this, not the method: a call that found the address absent and reaches its INSERT after
  the address has been inserted is refused and throws the uniqueness violation, leaving
  the store as it is.
\<close>

theorem concurrent_upserts_one_row:
  assumes "unique_columns db"
  shows "unique_columns (snd (run es (cs, db)))
       \<and> (cs \<noteq> [] \<and> (\<forall>c \<in> set cs. call_waId c = w \<and> stage c = Start)
            \<and> (\<forall>c \<in> set (fst (run es (cs, db))). returned c) \<longrightarrow>
          length (filter (\<lambda>c. c_wa_id c = w) (contacts (snd (run es (cs, db))))) = 1)
       \<and> (\<forall>c. stage c = Absent \<and> call_waId c \<in> set (map c_wa_id (contacts db)) \<longrightarrow>
            step c db
              = (c\<lparr>stage := Returned
                     (Inl (D1_ERROR ''UNIQUE constraint failed: contacts.wa_id''))\<rparr>, db))"
proof -
  let ?cs' = "fst (run es (cs, db))" and ?db' = "snd (run es (cs, db))"
  have u: "unique_columns ?db'"
    using assms by (rule run_unique)
  have "length (filter (\<lambda>c. c_wa_id c = w) (contacts ?db')) = 1"
    if ne: "cs \<noteq> []" and start: "\<forall>c \<in> set cs. call_waId c = w \<and> stage c = Start"
      and fin: "\<forall>c \<in> set ?cs'. returned c"
  proof -
    have ids: "map call_waId ?cs' = map call_waId cs"
      by (rule run_waIds)
    then have "length ?cs' = length cs"
      using map_eq_imp_length_eq by blast
    with ne obtain c where c: "c \<in> set ?cs'"
      by (cases ?cs') auto
    then have "call_waId c \<in> set (map call_waId cs)"
      using ids by (metis image_eqI set_map)
    with start have w: "call_waId c = w"
      by auto
    have "\<forall>c \<in> set cs. settled c db"
      using start by (simp add: settled_def)
    from run_settled [OF this, of es] c have "settled c ?db'"
      by blast
    with fin c w have "w \<in> set (map c_wa_id (contacts ?db'))"
      by (auto simp: settled_def returned_def)
    moreover from u have "distinct (map c_wa_id (contacts ?db'))"
      by (simp add: unique_columns_def)
    ultimately show ?thesis
      using count_distinct [of c_wa_id "contacts ?db'" w] by simp
  qed
  with u step_race show ?thesis
    by blast
qed

theorem concurrent_upserts_one_row_witness:
  "unique_columns (snd (run [Step 0, Step 1, Step 0, Step 1] ([call_1, call_2], empty_db)))
   \<and> length (filter (\<lambda>c. c_wa_id c = ''1555'')
               (contacts (snd (run [Step 0, Step 1, Step 0, Step 1]
                                 ([call_1, call_2], empty_db))))) = 1"
proof -
  let ?es = "[Step 0, Step 1, Step 0, Step 1]"
  have u: "unique_columns empty_db"
    by (simp add: unique_columns_def empty_db_def)
  have start: "\<forall>c \<in> set [call_1, call_2]. call_waId c = ''1555'' \<and> stage c = Start"
    by (simp add: call_1_def call_2_def)
  have "list_all returned (fst (run ?es ([call_1, call_2], empty_db)))"
    by code_simp
  then have fin: "\<forall>c \<in> set (fst (run ?es ([call_1, call_2], empty_db))). returned c"
    unfolding list_all_iff .
  from concurrent_upserts_one_row [OF u, of ?es "[call_1, call_2]" "''1555''"] start fin
  show ?thesis
    by simp
qed

subsection \<open>C4: one conversation row per conversation identifier\<close>

text \<open>
  C4. Two status events carry the same conversation identifier, each for a message whose
  contact the join finds, their timestamps converting. Applied one after the other to a
  store whose conversation identifiers are distinct, they leave exactly one conversation
  row with that identifier: the INSERT OR IGNORE of the second event adds nothing.
\<close>

theorem conversation_inserted_once:
  assumes "epochToISO (st_timestamp s1) = Inr stamp1"
    and "epochToISO (st_timestamp s2) = Inr stamp2"
    and "st_conversation s1 = Some cv1" and "st_conversation s2 = Some cv2"
    and "conv_id cv1 = cid" and "conv_id cv2 = cid"
    and "select_contact_of_message (st_id s1) db = Some k1"
    and "select_contact_of_message (st_id s2) db = Some k2"
    and "distinct (map cv_wa_conversation_id (conversations db))"
  shows "length (filter (\<lambda>v. cv_wa_conversation_id v = cid)
                   (conversations (snd (updateMessageStatus now2 s2
                                          (snd (updateMessageStatus now1 s1 db)))))) = 1
       \<and> conversations (snd (updateMessageStatus now2 s2 (snd (updateMessageStatus now1 s1 db))))
           = conversations (snd (updateMessageStatus now1 s1 db))"
proof -
  define db1 where "db1 = snd (updateMessageStatus now1 s1 db)"
  obtain rows1 where r1: "conversations db1 = conversations db @ rows1"
      "map cv_wa_conversation_id rows1
         = (if cid \<in> set (map cv_wa_conversation_id (conversations db)) then [] else [cid])"
    using updateMessageStatus_conversations [OF assms(1,3,7), of now1] assms(5)
    unfolding db1_def by auto
  have in1: "cid \<in> set (map cv_wa_conversation_id (conversations db1))"
    using r1 by (auto split: if_splits)
  have d1: "distinct (map cv_wa_conversation_id (conversations db1))"
    using r1 assms(9) by (auto split: if_splits)
  have "select_contact_of_message (st_id s2) db1 = Some k2"
    unfolding db1_def using updateMessageStatus_join [OF assms(1)] assms(8) by simp
  from updateMessageStatus_conversations [OF assms(2,4) this, of now2]
  have same: "conversations (snd (updateMessageStatus now2 s2 db1)) = conversations db1"
    using in1 assms(6) by auto
  have "length (filter (\<lambda>v. cv_wa_conversation_id v = cid) (conversations db1)) = 1"
    using count_distinct [OF d1, of cid] in1 by simp
  with same show ?thesis
    unfolding db1_def by simp
qed

theorem conversation_inserted_once_witness:
  "map cv_wa_conversation_id (conversations db_A) = []
   \<and> length (filter (\<lambda>v. cv_wa_conversation_id v = ''conv.1'')
               (conversations (snd (updateMessageStatus ''2023-11-14 22:16:00'' status_read
                  (snd (updateMessageStatus ''2023-11-14 22:15:00'' status_sent db_A)))))) = 1"
proof -
  have none: "map cv_wa_conversation_id (conversations db_A) = []"
    and k: "select_contact_of_message ''wamid.A'' db_A = Some 1"
    by code_simp+
  have 1: "epochToISO (st_timestamp status_sent) = Inr ''2023-11-14T22:13:20.000Z''"
    and 2: "epochToISO (st_timestamp status_read) = Inr ''2023-11-14T22:13:20.000Z''"
    and 3: "st_conversation status_sent = Some window_1"
    and 4: "st_conversation status_read = Some window_1"
    and 5: "conv_id window_1 = ''conv.1''"
    and 7: "select_contact_of_message (st_id status_sent) db_A = Some 1"
    and 8: "select_contact_of_message (st_id status_read) db_A = Some 1"
    by (simp_all add: status_sent_def status_read_def blank_status_def window_1_def
          epoch_1700000000 k)
  have 9: "distinct (map cv_wa_conversation_id (conversations db_A))"
    unfolding none by simp
  from conversation_inserted_once [OF 1 2 3 4 5 5 7 8 9,
         of "''2023-11-14 22:16:00''" "''2023-11-14 22:15:00''"] none
  show ?thesis
    by blast
qed

subsection \<open>C5: a nameless upsert keeps the learned name\<close>

text \<open>
  C5. \<^verbatim>\<open>findOrCreateContact\<close> on an address that has a contact row does not fail, and
  what it does to the table is this: on the rows of that address, and on no other,
  \<^verbatim>\<open>last_message_at\<close> and \<^verbatim>\<open>updated_at\<close> become the clock's reading, and the name is
  replaced when the supplied name is non-empty, and only then. A call with an absent or
  empty name leaves every stored name as it was.
\<close>

theorem findOrCreateContact_keeps_name:
  assumes "waId \<in> set (map c_wa_id (contacts db))"
  shows "\<not> isl (fst (findOrCreateContact now waId name db))
       \<and> contacts (snd (findOrCreateContact now waId name db))
           = map (\<lambda>c. if c_wa_id c = waId
                       then c\<lparr>c_name := (if name = None \<or> name = Some [] then c_name c else name),
                              c_last_message_at := now, c_updated_at := now\<rparr>
                       else c)
                 (contacts db)
       \<and> (name = None \<or> name = Some [] \<longrightarrow>
            map c_name (contacts (snd (findOrCreateContact now waId name db)))
              = map c_name (contacts db))"
proof -
  from assms obtain existing where ex: "select_contact waId db = Some existing"
    by (cases "select_contact waId db") (auto simp: select_contact_None)
  have names: "(case or_null name of Some n \<Rightarrow> Some n | None \<Rightarrow> c_name c)
      = (if name = None \<or> name = Some [] then c_name c else name)" for c
    by (cases name) (simp_all add: or_null_def)
  have tbl: "contacts (snd (findOrCreateContact now waId name db))
           = map (\<lambda>c. if c_wa_id c = waId
                       then c\<lparr>c_name := (if name = None \<or> name = Some [] then c_name c else name),
                              c_last_message_at := now, c_updated_at := now\<rparr>
                       else c)
                 (contacts db)"
    by (simp add: findOrCreateContact_existing [OF ex] update_contact_def names)
  have "map c_name (contacts (snd (findOrCreateContact now waId name db)))
          = map c_name (contacts db)" if "name = None \<or> name = Some []"
    unfolding tbl using that by (auto simp: comp_def intro!: map_cong)
  moreover have "\<not> isl (fst (findOrCreateContact now waId name db))"
    by (simp add: findOrCreateContact_existing [OF ex])
  ultimately show ?thesis
    using tbl by blast
qed

theorem findOrCreateContact_keeps_name_witness:
  "map c_name (contacts db_Ann) = [Some ''Ann'']
   \<and> map c_name (contacts (snd (findOrCreateContact ''2023-11-14 22:20:00'' ''1555'' None db_Ann)))
       = [Some ''Ann'']
   \<and> map c_name (contacts (snd (findOrCreateContact ''2023-11-14 22:20:00'' ''1555'' (Some [])
                                    db_Ann)))
       = [Some ''Ann'']
   \<and> map c_last_message_at
         (contacts (snd (findOrCreateContact ''2023-11-14 22:20:00'' ''1555'' None db_Ann)))
       = [''2023-11-14 22:20:00'']"
proof -
  have ann: "map c_name (contacts db_Ann) = [Some ''Ann'']"
    and addr: "map c_wa_id (contacts db_Ann) = [''1555'']"
    by code_simp+
  then have h: "''1555'' \<in> set (map c_wa_id (contacts db_Ann))"
    by simp
  have "map c_name (contacts (snd (findOrCreateContact ''2023-11-14 22:20:00'' ''1555'' None
                                      db_Ann)))
          = map c_name (contacts db_Ann)"
    by (rule findOrCreateContact_keeps_name
               [OF h, THEN conjunct2, THEN conjunct2, THEN mp]) simp
  moreover have "map c_name (contacts (snd (findOrCreateContact ''2023-11-14 22:20:00'' ''1555''
                                      (Some []) db_Ann)))
          = map c_name (contacts db_Ann)"
    by (rule findOrCreateContact_keeps_name
               [OF h, THEN conjunct2, THEN conjunct2, THEN mp]) simp
  moreover have "map c_last_message_at
         (contacts (snd (findOrCreateContact ''2023-11-14 22:20:00'' ''1555'' None db_Ann)))
       = [''2023-11-14 22:20:00'']"
    by code_simp
  ultimately show ?thesis
    using ann by simp
qed

subsection \<open>C6: the answer of the POST handler\<close>

text \<open>
  C6. Whatever the service does: a payload whose \<^verbatim>\<open>object\<close> is not
  \<^verbatim>\<open>whatsapp_business_account\<close> is answered with status 400 and nothing is processed
  (the store and the console are as before); a payload with the right \<^verbatim>\<open>object\<close> is
  answered with \<^verbatim>\<open>200 OK\<close>, for every behaviour of the two methods, failing or not.
\<close>

theorem webhook_post_acknowledges:
  "(object payload \<noteq> ''whatsapp_business_account'' \<longrightarrow>
      webhook_post db (Inr payload) w
        = (json_response (JObject [(''error'', JString ''Invalid webhook object'')]) 400, w))
   \<and> (object payload = ''whatsapp_business_account'' \<longrightarrow>
        fst (webhook_post db (Inr payload) w) = text_response ''OK'' 200)"
  by (simp add: webhook_post_def)

theorem webhook_post_acknowledges_witness:
  "webhook_post unavailable_service (Inr payload_bad) \<lparr>console = [], DB = ()\<rparr>
     = (json_response (JObject [(''error'', JString ''Invalid webhook object'')]) 400,
        \<lparr>console = [], DB = ()\<rparr>)
   \<and> fst (webhook_post unavailable_service (Inr payload_1) \<lparr>console = [], DB = ()\<rparr>)
       = text_response ''OK'' 200"
proof -
  have "object payload_bad \<noteq> ''whatsapp_business_account''"
    and "object payload_1 = ''whatsapp_business_account''"
    by (simp_all add: payload_bad_def payload_1_def)
  with webhook_post_acknowledges [of payload_bad unavailable_service "\<lparr>console = [], DB = ()\<rparr>"]
    webhook_post_acknowledges [of payload_1 unavailable_service "\<lparr>console = [], DB = ()\<rparr>"]
  show ?thesis
    by blast
qed

subsection \<open>C7: a failing item does not stop the notification\<close>

text \<open>
  C7. For a payload with the right \<^verbatim>\<open>object\<close> and for every behaviour of the service:
  the store the handler leaves is the store reached by calling the service once for every
  item of the notification, in the order received (entries, then changes, then the
  messages and the statuses of a change), each call starting from the store the call
  before it left, whether that call returned or threw; and the console announces these
  items, all of them, in this order.
\<close>

theorem webhook_post_processes_every_item:
  assumes "object payload = ''whatsapp_business_account''"
  shows "processed db (items_of_payload payload) w (snd (webhook_post db (Inr payload) w))"
  using assms fold_entries_processed [of db "entry payload" w]
  by (simp add: webhook_post_def items_of_payload_def)

theorem webhook_post_processes_every_item_witness:
  "processed (D1_DatabaseService no_number ''2023-11-14 22:13:21'') (items_of_payload payload_1)
     world_0
     (snd (webhook_post (D1_DatabaseService no_number ''2023-11-14 22:13:21'') (Inr payload_1)
             world_0))
   \<and> isl (fst (saveIncomingMessage no_number ''2023-11-14 22:13:21'' message_A'
                 (find_contact value_1 message_A')
                 (attempt (D1_DatabaseService no_number ''2023-11-14 22:13:21'')
                    (Message_item message_A value_1) empty_db)))
   \<and> map m_wa_message_id
        (messages (DB (snd (webhook_post (D1_DatabaseService no_number ''2023-11-14 22:13:21'')
                              (Inr payload_1) world_0))))
       = [''wamid.A'', ''wamid.B'', ''wamid.R'']"
proof -
  let ?S = "D1_DatabaseService no_number ''2023-11-14 22:13:21''"
  have h: "object payload_1 = ''whatsapp_business_account''"
    by (simp add: payload_1_def)
  note t = webhook_post_processes_every_item [OF h, of ?S world_0]
  then have "DB (snd (webhook_post ?S (Inr payload_1) world_0))
      = fold (attempt ?S) (items_of_payload payload_1) (DB world_0)"
    by (simp add: processed_def)
  moreover have "map m_wa_message_id
      (messages (fold (attempt ?S) (items_of_payload payload_1) (DB world_0)))
        = [''wamid.A'', ''wamid.B'', ''wamid.R'']"
    by code_simp
  moreover have "isl (fst (saveIncomingMessage no_number ''2023-11-14 22:13:21'' message_A'
                 (find_contact value_1 message_A')
                 (attempt ?S (Message_item message_A value_1) empty_db)))"
    by code_simp
  ultimately show ?thesis
    using t by simp
qed

subsection \<open>C8: the status history is append-only and the status is the latest\<close>

lemma apply_statuses_history:
  assumes "\<forall>e \<in> set evs. st_id (snd e) = mid \<and> \<not> isl (epochToISO (st_timestamp (snd e)))"
  shows "\<exists>rows. message_statuses (apply_statuses evs db) = message_statuses db @ rows
           \<and> map (\<lambda>r. (h_wa_message_id r, h_status r)) rows
               = map (\<lambda>e. (mid, statusText (st_status (snd e)))) evs"
  using assms
proof (induction evs arbitrary: db)
  case Nil
  show ?case by simp
next
  case (Cons e evs)
  obtain now s where e: "e = (now, s)" by (cases e)
  from Cons.prems e obtain stamp where ts: "epochToISO (st_timestamp s) = Inr stamp"
    and mid: "st_id s = mid"
    by (cases "epochToISO (st_timestamp s)") auto
  define db1 where "db1 = snd (updateMessageStatus now s db)"
  from Cons.IH [of db1] Cons.prems obtain rows where rows:
      "message_statuses (apply_statuses evs db1) = message_statuses db1 @ rows"
      "map (\<lambda>r. (h_wa_message_id r, h_status r)) rows
         = map (\<lambda>e. (mid, statusText (st_status (snd e)))) evs"
    by auto
  from updateMessageStatus_effect(4) [OF ts, of now db] obtain row where row:
      "message_statuses db1 = message_statuses db @ [row]"
      "h_wa_message_id row = mid" "h_status row = statusText (st_status s)"
    unfolding db1_def mid by simp
  have "message_statuses (apply_statuses (e # evs) db) = message_statuses db @ (row # rows)"
    using rows(1) row(1) by (simp add: e db1_def)
  moreover have "map (\<lambda>r. (h_wa_message_id r, h_status r)) (row # rows)
      = map (\<lambda>e. (mid, statusText (st_status (snd e)))) (e # evs)"
    using rows(2) row(2,3) by (simp add: e)
  ultimately show ?case by blast
qed

lemma apply_statuses_messages:
  assumes "\<forall>e \<in> set evs. st_id (snd e) = mid \<and> \<not> isl (epochToISO (st_timestamp (snd e)))"
    and "evs \<noteq> []"
  shows "messages (apply_statuses evs db)
           = map (\<lambda>m. if m_wa_message_id m = mid
                       then m\<lparr>m_status := statusText (st_status (snd (last evs)))\<rparr> else m)
                 (messages db)"
  using assms
proof (induction evs arbitrary: db)
  case Nil
  then show ?case by simp
next
  case (Cons e evs)
  obtain now s where e: "e = (now, s)" by (cases e)
  from Cons.prems e obtain stamp where ts: "epochToISO (st_timestamp s) = Inr stamp"
    and mid: "st_id s = mid"
    by (cases "epochToISO (st_timestamp s)") auto
  define db1 where "db1 = snd (updateMessageStatus now s db)"
  have m1: "messages db1 = map (\<lambda>m. if m_wa_message_id m = mid
                       then m\<lparr>m_status := statusText (st_status s)\<rparr> else m) (messages db)"
    unfolding db1_def using updateMessageStatus_effect(2) [OF ts, of now db] mid by simp
  show ?case
  proof (cases "evs = []")
    case True
    then show ?thesis using m1 by (simp add: e db1_def)
  next
    case False
    with Cons.IH [of db1] Cons.prems
    have "messages (apply_statuses evs db1)
           = map (\<lambda>m. if m_wa_message_id m = mid
                       then m\<lparr>m_status := statusText (st_status (snd (last evs)))\<rparr> else m)
                 (messages db1)"
      by simp
    then show ?thesis
      using False by (simp add: e db1_def [symmetric] m1 comp_def if_distrib cong: if_cong)
  qed
qed

text \<open>
  C8. \<open>K\<close> status events for one message identifier, their timestamps converting, are
  applied in order. The history afterwards is the history before followed by \<open>K\<close> new
  rows, one per event in the order of the events, each keyed by the identifier and
  carrying its event's status: nothing that was there is changed or removed, and the
  identifier has \<open>K\<close> rows more than before. The messages table afterwards is the table
  before with the status of the rows of that identifier set to the status of the last
  event, whatever the statuses before it were.
\<close>

theorem status_history_append_only:
  assumes "\<forall>e \<in> set evs. st_id (snd e) = mid \<and> \<not> isl (epochToISO (st_timestamp (snd e)))"
  shows "(\<exists>rows. message_statuses (apply_statuses evs db) = message_statuses db @ rows
            \<and> map (\<lambda>r. (h_wa_message_id r, h_status r)) rows
                = map (\<lambda>e. (mid, statusText (st_status (snd e)))) evs)
       \<and> length (filter (\<lambda>r. h_wa_message_id r = mid) (message_statuses (apply_statuses evs db)))
           = length (filter (\<lambda>r. h_wa_message_id r = mid) (message_statuses db)) + length evs
       \<and> (evs \<noteq> [] \<longrightarrow>
            messages (apply_statuses evs db)
              = map (\<lambda>m. if m_wa_message_id m = mid
                          then m\<lparr>m_status := statusText (st_status (snd (last evs)))\<rparr> else m)
                    (messages db))"
proof -
  from apply_statuses_history [OF assms, of db] obtain rows where rows:
      "message_statuses (apply_statuses evs db) = message_statuses db @ rows"
      "map (\<lambda>r. (h_wa_message_id r, h_status r)) rows
         = map (\<lambda>e. (mid, statusText (st_status (snd e)))) evs"
    by blast
  from rows(2) have "map h_wa_message_id rows = map (\<lambda>e. mid) evs"
    by (induction rows arbitrary: evs) auto
  then have "filter (\<lambda>r. h_wa_message_id r = mid) rows = rows" "length rows = length evs"
    by (induction rows arbitrary: evs) auto
  then have "length (filter (\<lambda>r. h_wa_message_id r = mid)
                 (message_statuses (apply_statuses evs db)))
           = length (filter (\<lambda>r. h_wa_message_id r = mid) (message_statuses db)) + length evs"
    by (simp add: rows(1))
  with rows apply_statuses_messages [OF assms, of db] show ?thesis
    by blast
qed

theorem status_history_append_only_witness:
  "map h_wa_message_id (message_statuses db_A) = []
   \<and> length (filter (\<lambda>r. h_wa_message_id r = ''wamid.A'')
        (message_statuses
           (apply_statuses [(''2023-11-14 22:15:00'', status_sent),
                            (''2023-11-14 22:16:00'', status_read),
                            (''2023-11-14 22:17:00'', blank_status)] db_A))) = 3
   \<and> map m_status
        (messages
           (apply_statuses [(''2023-11-14 22:15:00'', status_sent),
                            (''2023-11-14 22:16:00'', status_read),
                            (''2023-11-14 22:17:00'', blank_status)] db_A))
       = [''delivered'']"
proof -
  let ?evs = "[(''2023-11-14 22:15:00'', status_sent), (''2023-11-14 22:16:00'', status_read),
               (''2023-11-14 22:17:00'', blank_status)]"
  have none: "map h_wa_message_id (message_statuses db_A) = []"
    and ids: "map m_wa_message_id (messages db_A) = [''wamid.A'']"
    by code_simp+
  have h: "\<forall>e \<in> set ?evs. st_id (snd e) = ''wamid.A''
             \<and> \<not> isl (epochToISO (st_timestamp (snd e)))"
    by (simp add: status_sent_def status_read_def blank_status_def epoch_1700000000)
  note t = status_history_append_only [OF h, of db_A]
  from none have "message_statuses db_A = []" by simp
  with t have 1: "length (filter (\<lambda>r. h_wa_message_id r = ''wamid.A'')
        (message_statuses (apply_statuses ?evs db_A))) = 3"
    by simp
  from t have "messages (apply_statuses ?evs db_A)
      = map (\<lambda>m. if m_wa_message_id m = ''wamid.A''
                  then m\<lparr>m_status := statusText (st_status (snd (last ?evs)))\<rparr> else m)
            (messages db_A)"
    by blast
  with ids have 2: "map m_status (messages (apply_statuses ?evs db_A)) = [''delivered'']"
    by (cases "messages db_A") (auto simp: blank_status_def)
  from none 1 2 show ?thesis
    by blast
qed

subsection \<open>C9: a message of an unhandled kind is stored with its snapshot\<close>

text \<open>
  C9. A message whose kind is none of the ten kinds the switch handles is stored like any
  other (its identifier fresh and its timestamp converting, as for every kind). The row
  keeps the kind tag, and its content is \<^verbatim>\<open>JSON.stringify\<close> of the message object
  itself: when the message is the typed view of the parsed object \<open>obj\<close>, the content is
  the text of \<open>obj\<close>, every property of it in its order, and the kind of the row is the
  \<^verbatim>\<open>type\<close> property of \<open>obj\<close>. The content is a snapshot of the whole object:
  no other object has the same text, so nothing of the inbound record is lost (for a
  number printer that writes the numbers of the objects apart).
\<close>

theorem unhandled_kind_is_stored:
  assumes "msg_type message \<notin> set [''text'', ''image'', ''video'', ''audio'', ''document'',
             ''sticker'', ''location'', ''interactive'', ''button'', ''contacts'']"
    and "epochToISO (msg_timestamp message) = Inr stamp"
    and "\<forall>m \<in> set (messages db). m_wa_message_id m \<noteq> msg_id message"
  shows "\<exists>row db'. saveIncomingMessage num now message contact db = (Inr row, db')
           \<and> messages db' = messages db @ [row]
           \<and> m_wa_message_id row = msg_id message
           \<and> m_type row = msg_type message
           \<and> m_content row = Some (JSON_stringify num (JObject (msg_properties message)))
           \<and> (\<forall>obj. IncomingMessage_of_json (JObject obj) = Some message \<longrightarrow>
                  map_of obj ''type'' = Some (JString (m_type row))
                  \<and> m_content row = Some (JSON_stringify num (JObject obj)))
           \<and> (\<forall>obj'. number_printer num D
                    \<and> numbers (JObject (msg_properties message)) \<subseteq> D
                    \<and> numbers (JObject obj') \<subseteq> D
                    \<and> m_content row = Some (JSON_stringify num (JObject obj')) \<longrightarrow>
                  obj' = msg_properties message)"
proof -
  let ?text = "JSON_stringify num (JObject (msg_properties message))"
  have "content (extractContent num message) = Text ?text"
    using assms(1) by (simp add: extractContent_def)
  then have "bind_text (content (extractContent num message)) = Inr (Some ?text)"
    by (simp add: bind_text_def)
  from saveIncomingMessage_stores [OF assms(2,3) this, of now contact]
  obtain row db' where row: "saveIncomingMessage num now message contact db = (Inr row, db')"
    "messages db' = messages db @ [row]" "m_wa_message_id row = msg_id message"
    "m_type row = msg_type message" "m_content row = Some ?text"
    by blast
  have "map_of obj ''type'' = Some (JString (m_type row))
      \<and> m_content row = Some (JSON_stringify num (JObject obj))"
    if "IncomingMessage_of_json (JObject obj) = Some message" for obj
    using IncomingMessage_of_json_properties(1,2) [OF that] row(4,5) by simp
  moreover have "obj' = msg_properties message"
    if "number_printer num D" "numbers (JObject (msg_properties message)) \<subseteq> D"
      "numbers (JObject obj') \<subseteq> D" "m_content row = Some (JSON_stringify num (JObject obj'))"
    for obj'
    using JSON_stringify_inj [OF that(1,3,2)] that(4) row(5) by simp
  ultimately show ?thesis
    using row by blast
qed

theorem unhandled_kind_is_stored_witness:
  \<open>(\<exists>row db'. saveIncomingMessage no_number ''2023-11-14 22:13:21'' message_R None db_A
                = (Inr row, db')
           \<and> messages db' = messages db_A @ [row]
           \<and> m_wa_message_id row = ''wamid.R''
           \<and> m_type row = ''reaction''
           \<and> m_content row
               = Some (''{"from":"1555","id":"wamid.R","timestamp":"1700000000",''
                       @ ''"reaction":{"message_id":"wamid.A","emoji":"''
                       @ [CHR 0xF0, CHR 0x9F, CHR 0x91, CHR 0x8D]
                       @ ''"},"type":"reaction"}'')
           \<and> m_content row \<noteq> Some (JSON_stringify no_number (JObject object_R')))
   \<and> (\<exists>row db'. saveIncomingMessage digit_printer ''2023-11-14 22:13:21'' message_O None db_A
                = (Inr row, db')
           \<and> messages db' = messages db_A @ [row]
           \<and> m_wa_message_id row = ''wamid.O''
           \<and> m_type row = ''order''
           \<and> m_content row
               = Some (''{"from":"1555","id":"wamid.O","order":{"catalog_id":"c1",''
                       @ ''"product_items":[{"product_retailer_id":"p1","quantity":2,''
                       @ ''"item_price":5,"currency":"USD"}]},''
                       @ ''"timestamp":"1700000000","type":"order"}'')
           \<and> m_content row \<noteq> Some (JSON_stringify digit_printer (JObject object_O')))\<close>
proof -
  have kinds: "msg_type message_R \<notin> set [''text'', ''image'', ''video'', ''audio'', ''document'',
             ''sticker'', ''location'', ''interactive'', ''button'', ''contacts'']"
      "msg_type message_O \<notin> set [''text'', ''image'', ''video'', ''audio'', ''document'',
             ''sticker'', ''location'', ''interactive'', ''button'', ''contacts'']"
    and stamps: "epochToISO (msg_timestamp message_R) = Inr ''2023-11-14T22:13:20.000Z''"
      "epochToISO (msg_timestamp message_O) = Inr ''2023-11-14T22:13:20.000Z''"
    and R: "msg_id message_R = ''wamid.R''" "msg_type message_R = ''reaction''"
      "msg_properties message_R = object_R"
    and O: "msg_id message_O = ''wamid.O''" "msg_type message_O = ''order''"
      "msg_properties message_O = object_O"
    by (simp_all add: message_R_def message_O_def blank_message_def epoch_1700000000)
  have "map m_wa_message_id (messages db_A) = [''wamid.A'']"
    by code_simp
  then have fresh: "\<forall>m \<in> set (messages db_A). m_wa_message_id m \<noteq> msg_id message_R"
      "\<forall>m \<in> set (messages db_A). m_wa_message_id m \<noteq> msg_id message_O"
    unfolding R O by (cases "messages db_A"; auto)+
  have view: "IncomingMessage_of_json (JObject object_R) = Some message_R"
      "IncomingMessage_of_json (JObject object_O) = Some message_O"
    by code_simp+
  have text_R: \<open>JSON_stringify no_number (JObject object_R)
             = ''{"from":"1555","id":"wamid.R","timestamp":"1700000000",''
               @ ''"reaction":{"message_id":"wamid.A","emoji":"''
               @ [CHR 0xF0, CHR 0x9F, CHR 0x91, CHR 0x8D]
               @ ''"},"type":"reaction"}''\<close>
    by code_simp
  have text_O: \<open>JSON_stringify digit_printer (JObject object_O)
             = ''{"from":"1555","id":"wamid.O","order":{"catalog_id":"c1",''
               @ ''"product_items":[{"product_retailer_id":"p1","quantity":2,''
               @ ''"item_price":5,"currency":"USD"}]},''
               @ ''"timestamp":"1700000000","type":"order"}''\<close>
    by code_simp
  have printers: "number_printer no_number {}"
      "number_printer digit_printer {0, 1, 2, 3, 4, 5, 6, 7, 8, 9}"
    by (simp_all add: number_printer_def digit_printer_def)
  have within: "numbers (JObject object_R) \<subseteq> {}" "numbers (JObject object_R') \<subseteq> {}"
      "numbers (JObject object_O) \<subseteq> {0, 1, 2, 3, 4, 5, 6, 7, 8, 9}"
      "numbers (JObject object_O') \<subseteq> {0, 1, 2, 3, 4, 5, 6, 7, 8, 9}"
    and other: "object_R' \<noteq> object_R" "object_O' \<noteq> object_O"
    by (simp_all add: object_R_def object_R'_def object_O_def object_O'_def)
  have "\<exists>row db'. saveIncomingMessage no_number ''2023-11-14 22:13:21'' message_R None db_A
                = (Inr row, db')
           \<and> messages db' = messages db_A @ [row]
           \<and> m_wa_message_id row = ''wamid.R''
           \<and> m_type row = ''reaction''
           \<and> m_content row = Some (JSON_stringify no_number (JObject object_R))
           \<and> m_content row \<noteq> Some (JSON_stringify no_number (JObject object_R'))"
  proof -
    from unhandled_kind_is_stored
           [OF kinds(1) stamps(1) fresh(1), of no_number "''2023-11-14 22:13:21''" None "{}",
            unfolded R]
    obtain row db' where row:
      "saveIncomingMessage no_number ''2023-11-14 22:13:21'' message_R None db_A = (Inr row, db')"
      "messages db' = messages db_A @ [row]" "m_wa_message_id row = ''wamid.R''"
      "m_type row = ''reaction''"
      "\<forall>obj. IncomingMessage_of_json (JObject obj) = Some message_R \<longrightarrow>
          map_of obj ''type'' = Some (JString (m_type row))
          \<and> m_content row = Some (JSON_stringify no_number (JObject obj))"
      "\<forall>obj'. number_printer no_number {} \<and> numbers (JObject object_R) \<subseteq> {}
           \<and> numbers (JObject obj') \<subseteq> {}
           \<and> m_content row = Some (JSON_stringify no_number (JObject obj')) \<longrightarrow> obj' = object_R"
      by blast
    from row(5) view(1) have "m_content row = Some (JSON_stringify no_number (JObject object_R))"
      by blast
    moreover from row(6) printers(1) within(1,2) other(1) have
      "m_content row \<noteq> Some (JSON_stringify no_number (JObject object_R'))"
      by blast
    ultimately show ?thesis
      using row(1-4) by blast
  qed
  moreover have "\<exists>row db'. saveIncomingMessage digit_printer ''2023-11-14 22:13:21'' message_O
                  None db_A
                = (Inr row, db')
           \<and> messages db' = messages db_A @ [row]
           \<and> m_wa_message_id row = ''wamid.O''
           \<and> m_type row = ''order''
           \<and> m_content row = Some (JSON_stringify digit_printer (JObject object_O))
           \<and> m_content row \<noteq> Some (JSON_stringify digit_printer (JObject object_O'))"
  proof -
    from unhandled_kind_is_stored
           [OF kinds(2) stamps(2) fresh(2), of digit_printer "''2023-11-14 22:13:21''" None
              "{0, 1, 2, 3, 4, 5, 6, 7, 8, 9}", unfolded O]
    obtain row db' where row:
      "saveIncomingMessage digit_printer ''2023-11-14 22:13:21'' message_O None db_A
         = (Inr row, db')"
      "messages db' = messages db_A @ [row]" "m_wa_message_id row = ''wamid.O''"
      "m_type row = ''order''"
      "\<forall>obj. IncomingMessage_of_json (JObject obj) = Some message_O \<longrightarrow>
          map_of obj ''type'' = Some (JString (m_type row))
          \<and> m_content row = Some (JSON_stringify digit_printer (JObject obj))"
      "\<forall>obj'. number_printer digit_printer {0, 1, 2, 3, 4, 5, 6, 7, 8, 9}
           \<and> numbers (JObject object_O) \<subseteq> {0, 1, 2, 3, 4, 5, 6, 7, 8, 9}
           \<and> numbers (JObject obj') \<subseteq> {0, 1, 2, 3, 4, 5, 6, 7, 8, 9}
           \<and> m_content row = Some (JSON_stringify digit_printer (JObject obj')) \<longrightarrow>
         obj' = object_O"
      by blast
    from row(5) view(2) have
      "m_content row = Some (JSON_stringify digit_printer (JObject object_O))"
      by blast
    moreover from row(6) printers(2) within(3,4) other(2) have
      "m_content row \<noteq> Some (JSON_stringify digit_printer (JObject object_O'))"
      by blast
    ultimately show ?thesis
      using row(1-4) by blast
  qed
  ultimately show ?thesis
    unfolding text_R text_O by blast
qed

subsection \<open>C10: a zero coordinate is stored as null\<close>

text \<open>
  C10. A location message with a fresh identifier and a timestamp that converts is
  stored, and each coordinate of the stored row is \<^verbatim>\<open>null\<close> when the payload's
  coordinate is \<open>0\<close> and equal to the payload's coordinate otherwise
  (\<^verbatim>\<open>message.location?.latitude || null\<close>).
\<close>

theorem location_zero_coordinate_is_null:
  assumes "msg_type message = ''location''"
    and "msg_location message = Some l"
    and "epochToISO (msg_timestamp message) = Inr stamp"
    and "\<forall>m \<in> set (messages db). m_wa_message_id m \<noteq> msg_id message"
  shows "\<exists>row db'. saveIncomingMessage num now message contact db = (Inr row, db')
           \<and> messages db' = messages db @ [row]
           \<and> m_wa_message_id row = msg_id message
           \<and> m_latitude row = (if loc_latitude l = 0 then None else Some (loc_latitude l))
           \<and> m_longitude row = (if loc_longitude l = 0 then None else Some (loc_longitude l))"
proof -
  have x: "latitude (extractContent num message)
             = (if loc_latitude l = 0 then None else Some (loc_latitude l))"
      "longitude (extractContent num message)
             = (if loc_longitude l = 0 then None else Some (loc_longitude l))"
      "bind_text (content (extractContent num message)) = Inr None"
    using assms(1,2)
    by (simp_all add: extractContent_def nulls_def num_or_null_def bind_text_def)
  from saveIncomingMessage_stores [OF assms(3,4) x(3), of now contact]
  show ?thesis
    unfolding x(1,2) by blast
qed

theorem location_zero_coordinate_is_null_witness:
  "\<exists>row db'. saveIncomingMessage no_number ''2023-11-14 22:13:21'' message_B None db_A
                = (Inr row, db')
           \<and> messages db' = messages db_A @ [row]
           \<and> m_wa_message_id row = ''wamid.B''
           \<and> m_latitude row = None
           \<and> m_longitude row = Some 2"
proof -
  have 1: "msg_type message_B = ''location''"
    and 2: "msg_location message_B
              = Some \<lparr>loc_latitude = 0, loc_longitude = 2, loc_name = None, loc_address = None\<rparr>"
    and 3: "epochToISO (msg_timestamp message_B) = Inr ''2023-11-14T22:13:20.000Z''"
    and 5: "msg_id message_B = ''wamid.B''"
    by (simp_all add: message_B_def blank_message_def epoch_1700000000)
  have "map m_wa_message_id (messages db_A) = [''wamid.A'']"
    by code_simp
  then have 4: "\<forall>m \<in> set (messages db_A). m_wa_message_id m \<noteq> msg_id message_B"
    unfolding 5 by (cases "messages db_A") auto
  from location_zero_coordinate_is_null
         [OF 1 2 3 4, of no_number "''2023-11-14 22:13:21''" None]
  show ?thesis
    by (simp add: 5)
qed

end
